theory Spec2Isabelle
  imports Complex_Main "HOL-Library.AList"
begin

section \<open>GeoTIFF to web tiles generator: \<^verbatim>\<open>scripts/generate_tiles.py\<close>\<close>

text \<open>
  A shallow embedding of the script. Conventions:
  \<^item> a Python \<^verbatim>\<open>int\<close> is an \<^typ>\<open>int\<close>, and a \<^verbatim>\<open>float\<close> is an IEEE double: a finite one is
    the \<^typ>\<open>real\<close> it denotes, every operation on floats rounds its exact result to the
    nearest double (ties to even) and gives an infinity when that is out of range. A number
    of a parsed document is taken to be a finite double. No operation of the script makes a
    NaN from finite inputs, so there is none; the sign of a zero is not modelled;
  \<^item> an exception is a value: a function that can raise returns \<open>exn + 'a\<close>;
  \<^item> the outside world (the two GDAL programs, the JSON parser, the directory listing)
    is a record \<open>env\<close> of functions, and what the script does to the world (printing,
    running a program, creating a directory, writing a file) is appended to a trace of
    events that every effectful function takes and returns;
  \<^item> creating a directory and writing the configuration file are taken to succeed, and
    what the GDAL programs do to the file system is not part of the model;
  \<^item> a \<^verbatim>\<open>dict\<close> that is iterated over is an association list in insertion order,
    assigned to with \<^const>\<open>AList.update\<close> (which replaces the value of a key that is
    present in place and appends a new key at the end, as Python does).
\<close>

subsection \<open>Exceptions and parsed JSON\<close>

datatype exn =
    CalledProcessError
  | FileNotFoundError
  | KeyError
  | IndexError
  | TypeError
  | ZeroDivisionError
  | ValueError
  | OverflowError
  | SystemExit int

definition try_bind :: "exn + 'a \<Rightarrow> ('a \<Rightarrow> exn + 'b) \<Rightarrow> exn + 'b" where
  "try_bind m f = (case m of Inl e \<Rightarrow> Inl e | Inr x \<Rightarrow> f x)"

text \<open>What \<^verbatim>\<open>json.loads\<close> returns.\<close>

datatype json =
    JNull
  | JBool bool
  | JNum real
  | JStr string
  | JArr "json list"
  | JObj "(string \<times> json) list"

text \<open>\<^verbatim>\<open>v[key]\<close> with a string key: only a dict accepts it.\<close>

fun getitem_key :: "json \<Rightarrow> string \<Rightarrow> exn + json" where
  "getitem_key (JObj kvs) k = (case map_of kvs k of None \<Rightarrow> Inl KeyError | Some v \<Rightarrow> Inr v)"
| "getitem_key _ k = Inl TypeError"

text \<open>
  \<^verbatim>\<open>v[i]\<close> with a non-negative integer index: a list or a string is indexed, a dict built
  from JSON has only string keys, anything else is not subscriptable.
\<close>

fun getitem_index :: "json \<Rightarrow> nat \<Rightarrow> exn + json" where
  "getitem_index (JArr xs) i = (if i < length xs then Inr (xs ! i) else Inl IndexError)"
| "getitem_index (JStr s) i = (if i < length s then Inr (JStr [s ! i]) else Inl IndexError)"
| "getitem_index (JObj kvs) i = Inl KeyError"
| "getitem_index _ i = Inl TypeError"

text \<open>The value of a Python number (\<^verbatim>\<open>bool\<close> is a subclass of \<^verbatim>\<open>int\<close>); \<open>None\<close> for any other value.\<close>

fun number :: "json \<Rightarrow> real option" where
  "number (JNum r) = Some r"
| "number (JBool b) = Some (if b then 1 else 0)"
| "number _ = None"

subsection \<open>Floating point\<close>

text \<open>The nearest integer, ties to the even one.\<close>

definition round_half_even :: "real \<Rightarrow> int" where
  "round_half_even x =
     (let f = \<lfloor>x\<rfloor>; d = x - of_int f
      in if d < 1 / 2 then f else if 1 / 2 < d then f + 1 else if even f then f else f + 1)"

text \<open>
  The doubles around \<open>x\<close> are the multiples of \<open>ulp x\<close>: \<open>2 ^ 52\<close> to \<open>2 ^ 53\<close> of them
  reach from \<open>2 ^ e\<close> to \<open>2 ^ (e + 1)\<close>, where \<open>e\<close> is the exponent of \<open>x\<close>, and below
  \<open>2 ^ - 1022\<close> the spacing stays that of the smallest exponent. \<open>fl x\<close> is the double
  nearest to \<open>x\<close>.
\<close>

definition binade :: "real \<Rightarrow> int" where
  "binade x = max (- 1022) \<lfloor>log 2 \<bar>x\<bar>\<rfloor>"

definition ulp :: "real \<Rightarrow> real" where
  "ulp x = 2 powr (of_int (binade x) - 52)"

definition fl :: "real \<Rightarrow> real" where
  "fl x = (if x = 0 then 0 else of_int (round_half_even (x / ulp x)) * ulp x)"

text \<open>
  A float: a finite double or an infinity. An exact result of at least
  \<open>overflow_threshold\<close>, half a spacing above the largest double, rounds to infinity.
\<close>

datatype pyfloat = Finite real | PInf | NInf

definition overflow_threshold :: real where
  "overflow_threshold = 2 ^ 1024 - 2 ^ 970"

definition round_float :: "real \<Rightarrow> pyfloat" where
  "round_float x =
     (if overflow_threshold \<le> x then PInf
      else if x \<le> - overflow_threshold then NInf
      else Finite (fl x))"

text \<open>\<^verbatim>\<open>a < b\<close>, and \<^verbatim>\<open>max(a, b)\<close>, which keeps \<open>a\<close> unless \<open>b\<close> is greater.\<close>

fun float_less :: "pyfloat \<Rightarrow> pyfloat \<Rightarrow> bool" where
  "float_less (Finite a) (Finite b) = (a < b)"
| "float_less PInf _ = False"
| "float_less _ PInf = True"
| "float_less _ NInf = False"
| "float_less NInf _ = True"

definition float_max :: "pyfloat \<Rightarrow> pyfloat \<Rightarrow> pyfloat" where
  "float_max a b = (if float_less a b then b else a)"

text \<open>\<^verbatim>\<open>x * c\<close> and \<^verbatim>\<open>x / c\<close> for a positive finite \<open>c\<close>, and \<^verbatim>\<open>c - x\<close> for a finite \<open>c\<close>.\<close>

fun float_mul :: "pyfloat \<Rightarrow> real \<Rightarrow> pyfloat" where
  "float_mul (Finite a) c = round_float (a * c)"
| "float_mul PInf c = PInf"
| "float_mul NInf c = NInf"

fun float_div :: "pyfloat \<Rightarrow> real \<Rightarrow> pyfloat" where
  "float_div (Finite a) c = round_float (a / c)"
| "float_div PInf c = PInf"
| "float_div NInf c = NInf"

fun float_rsub :: "real \<Rightarrow> pyfloat \<Rightarrow> pyfloat" where
  "float_rsub c (Finite a) = round_float (c - a)"
| "float_rsub c PInf = NInf"
| "float_rsub c NInf = PInf"

text \<open>
  \<^verbatim>\<open>math.log2(x)\<close>: a \<^verbatim>\<open>ValueError\<close> outside the domain, infinity at infinity. The C
  library's function is taken to return the double nearest to the logarithm; it is exact at
  the powers of two.
\<close>

fun math_log2 :: "pyfloat \<Rightarrow> exn + pyfloat" where
  "math_log2 (Finite x) = (if x \<le> 0 then Inl ValueError else Inr (Finite (fl (log 2 x))))"
| "math_log2 PInf = Inr PInf"
| "math_log2 NInf = Inl ValueError"

text \<open>
  \<^verbatim>\<open>int(x)\<close> of a float: truncation towards zero, and an \<^verbatim>\<open>OverflowError\<close> at an
  infinity.
\<close>

definition py_int :: "real \<Rightarrow> int" where
  "py_int x = (if 0 \<le> x then \<lfloor>x\<rfloor> else \<lceil>x\<rceil>)"

fun int_of_float :: "pyfloat \<Rightarrow> exn + int" where
  "int_of_float (Finite x) = Inr (py_int x)"
| "int_of_float _ = Inl OverflowError"

subsection \<open>Text\<close>

definition digit :: "nat \<Rightarrow> char" where
  "digit d = ''0123456789'' ! d"

function str_nat :: "nat \<Rightarrow> string" where
  "str_nat n = (if n < 10 then [digit n] else str_nat (n div 10) @ [digit (n mod 10)])"
  by pat_completeness auto
termination
  by (relation "measure id") auto

declare str_nat.simps [simp del]

text \<open>\<^verbatim>\<open>str(n)\<close> and \<^verbatim>\<open>f"{n}"\<close> of an \<^verbatim>\<open>int\<close>.\<close>

definition str_int :: "int \<Rightarrow> string" where
  "str_int n = (if n < 0 then ''-'' @ str_nat (nat (- n)) else str_nat (nat n))"

text \<open>
  \<^verbatim>\<open>f"{x:.6f}"\<close>: the sign, the integer part and six decimals of the value rounded to the
  nearest millionth (ties to even). A negative value that rounds to zero keeps its sign.
\<close>

definition format_6f :: "real \<Rightarrow> string" where
  "format_6f x =
     (let n = nat (round_half_even (\<bar>x\<bar> * 10 ^ 6));
          frac = str_nat (n mod 10 ^ 6)
      in (if x < 0 then ''-'' else '''') @ str_nat (n div 10 ^ 6) @ ''.''
           @ replicate (6 - length frac) CHR ''0'' @ frac)"

text \<open>The same of a float: an infinity is written \<^verbatim>\<open>inf\<close> or \<^verbatim>\<open>-inf\<close>.\<close>

fun format_float :: "pyfloat \<Rightarrow> string" where
  "format_float (Finite x) = format_6f x"
| "format_float PInf = ''inf''"
| "format_float NInf = ''-inf''"

definition endswith :: "string \<Rightarrow> string \<Rightarrow> bool" where
  "endswith s ext = (length ext \<le> length s \<and> drop (length s - length ext) s = ext)"

text \<open>\<^verbatim>\<open>s.rfind(c)\<close>, with \<open>None\<close> for \<^verbatim>\<open>-1\<close>.\<close>

fun rfind :: "char \<Rightarrow> string \<Rightarrow> nat option" where
  "rfind c [] = None"
| "rfind c (x # xs) =
     (case rfind c xs of Some i \<Rightarrow> Some (Suc i) | None \<Rightarrow> if x = c then Some 0 else None)"

text \<open>
  \<^verbatim>\<open>Path.stem\<close> of a file name: the name up to its last dot, unless that dot is the first
  or the last character.
\<close>

definition stem :: "string \<Rightarrow> string" where
  "stem name =
     (case rfind CHR ''.'' name of
        None \<Rightarrow> name
      | Some i \<Rightarrow> if 0 < i \<and> i < length name - 1 then take i name else name)"

text \<open>\<^verbatim>\<open>os.path.join(a, b)\<close> on POSIX; also used for \<^verbatim>\<open>Path / name\<close>.\<close>

definition path_join :: "string \<Rightarrow> string \<Rightarrow> string" where
  "path_join a b =
     (if b \<noteq> [] \<and> hd b = CHR ''/'' then b
      else if a = [] \<or> last a = CHR ''/'' then a @ b
      else a @ ''/'' @ b)"

subsection \<open>The world\<close>

record bounds =
  west :: json
  south :: json
  east :: json
  north :: json

text \<open>One constructor for each \<^verbatim>\<open>print\<close> of the script, with the values it interpolates.\<close>

datatype msg =
    Error_getting_info string
  | Error_parsing_gdalinfo_output string
  | Processing string
  | Failed_to_get_info string
  | Bounds_are bounds
  | Suggested_zoom_levels int int
  | Running "string list"
  | Tiles_generated_successfully string
  | Error_generating_tiles string
  | No_valid_ortho_bounds_found
  | Updated_map_configuration
  | Center string string
  | Initial_zoom int
  | Zoom_range int int
  | Banner
  | Rule
  | GDAL_tools_not_found
  | Install_hint_ubuntu
  | Install_hint_macos
  | Install_hint_windows
  | No_GeoTIFF_files_found string
  | Please_place_your_files
  | Found_files nat
  | File_item nat string
  | Updating_map_configuration
  | Tile_generation_complete
  | Generated_tiles_in string
  | Updated_map_configuration_done
  | To_view_your_map
  | Upload_step
  | Hosting_step
  | Index_step

datatype event =
    Print msg
  | Run "string list"
  | Makedirs string
  | Write string string

type_synonym trace = "event list"

text \<open>
  \<open>run env cmd\<close> is \<^verbatim>\<open>subprocess.run(cmd, check=True)\<close>: the standard output of a run
  that exits with status 0, \<^const>\<open>CalledProcessError\<close> for another status,
  \<^const>\<open>FileNotFoundError\<close> when the program is not installed. \<open>json_loads env s\<close> is
  \<^verbatim>\<open>json.loads(s)\<close>, \<open>None\<close> when it raises \<^verbatim>\<open>JSONDecodeError\<close>. \<open>listdir env d\<close> is the
  names of the entries of directory \<open>d\<close>, in the order the system lists them.
\<close>

record env =
  run :: "string list \<Rightarrow> exn + string"
  json_loads :: "string \<Rightarrow> json option"
  listdir :: "string \<Rightarrow> string list"

subsection \<open>\<^verbatim>\<open>get_geotiff_info\<close>\<close>

text \<open>
  Lines 24 to 41: the reads of the parsed document. A missing key, a short list or a
  value of another shape raises, and none of these is caught by the function.
\<close>

definition read_info :: "json \<Rightarrow> exn + bounds \<times> json \<times> json" where
  "read_info info =
     try_bind (getitem_key info ''cornerCoordinates'') (\<lambda>corners.
     try_bind (getitem_key corners ''lowerLeft'') (\<lambda>lower_left.
     try_bind (getitem_key corners ''upperRight'') (\<lambda>upper_right.
     try_bind (getitem_index lower_left 0) (\<lambda>w.
     try_bind (getitem_index lower_left 1) (\<lambda>s.
     try_bind (getitem_index upper_right 0) (\<lambda>e.
     try_bind (getitem_index upper_right 1) (\<lambda>n.
     try_bind (getitem_key info ''size'') (\<lambda>sz.
     try_bind (getitem_key info ''geoTransform'') (\<lambda>geo_transform.
     try_bind (getitem_index geo_transform 1) (\<lambda>pixel_size.
       Inr (\<lparr>west = w, south = s, east = e, north = n\<rparr>, sz, pixel_size)))))))))))"

text \<open>
  The result is \<open>Some (bounds, size, pixel_size)\<close>, or \<open>None\<close> for the triple of
  \<^verbatim>\<open>None\<close> that the two handlers return.
\<close>

definition get_geotiff_info ::
  "env \<Rightarrow> string \<Rightarrow> trace \<Rightarrow> (exn + (bounds \<times> json \<times> json) option) \<times> trace" where
  "get_geotiff_info env geotiff_path tr =
     (let cmd = [''gdalinfo'', ''-json'', geotiff_path];
          tr1 = tr @ [Run cmd]
      in case run env cmd of
           Inl e \<Rightarrow>
             if e = CalledProcessError
             then (Inr None, tr1 @ [Print (Error_getting_info geotiff_path)])
             else (Inl e, tr1)
         | Inr stdout \<Rightarrow>
             (case json_loads env stdout of
                None \<Rightarrow> (Inr None, tr1 @ [Print (Error_parsing_gdalinfo_output geotiff_path)])
              | Some info \<Rightarrow>
                  (case read_info info of
                     Inl e \<Rightarrow> (Inl e, tr1)
                   | Inr r \<Rightarrow> (Inr (Some r), tr1))))"

subsection \<open>\<^verbatim>\<open>calculate_zoom_levels\<close>\<close>

text \<open>
  The double that the literal \<^verbatim>\<open>156543.03392804097\<close> of line 54 denotes; it is about
  \<open>2 / 10 ^ 12\<close> below the decimal.
\<close>

definition meters_per_pixel_zoom0 :: real where
  "meters_per_pixel_zoom0 = 5378777689100435 / 2 ^ 35"

text \<open>
  \<^verbatim>\<open>abs\<close> raises on a value that is not a number and the division on zero; a quotient
  out of the range of a double is infinity, of which \<^verbatim>\<open>int\<close> raises on line 60. The
  second argument is not used.
\<close>

definition calculate_zoom_levels :: "json \<Rightarrow> json \<Rightarrow> exn + int \<times> int" where
  "calculate_zoom_levels pixel_size image_width =
     (case number pixel_size of
        None \<Rightarrow> Inl TypeError
      | Some p \<Rightarrow>
          if \<bar>p\<bar> = 0 then Inl ZeroDivisionError
          else
            try_bind (math_log2 (round_float (meters_per_pixel_zoom0 / \<bar>p\<bar>))) (\<lambda>optimal_zoom.
            try_bind (int_of_float optimal_zoom) (\<lambda>t.
              let calculated_min = max 1 (t - 8);
                  calculated_max = min 22 (t + 4);
                  min_zoom = min calculated_min calculated_max;
                  max_zoom = max calculated_min calculated_max
              in if 18 < min_zoom then Inr (10, 22) else Inr (min_zoom, max_zoom))))"

subsection \<open>\<^verbatim>\<open>generate_tiles\<close>\<close>

definition generate_tiles ::
  "env \<Rightarrow> string \<Rightarrow> string \<Rightarrow> string \<Rightarrow> trace
     \<Rightarrow> (exn + bounds option \<times> int option \<times> int option) \<times> trace" where
  "generate_tiles env geotiff_path output_dir folder_name tr =
     (case get_geotiff_info env geotiff_path (tr @ [Print (Processing folder_name)]) of
        (Inl e, tr1) \<Rightarrow> (Inl e, tr1)
      | (Inr None, tr1) \<Rightarrow>
          (Inr (None, None, None), tr1 @ [Print (Failed_to_get_info geotiff_path)])
      | (Inr (Some (bnds, sz, pixel_size)), tr1) \<Rightarrow>
          (case try_bind (getitem_index sz 0) (calculate_zoom_levels pixel_size) of
             Inl e \<Rightarrow> (Inl e, tr1)
           | Inr (mn, mx) \<Rightarrow>
               let tile_output_dir = path_join output_dir folder_name;
                   cmd = [''gdal2tiles.py'', ''-z'', str_int mn @ ''-'' @ str_int mx,
                          ''-w'', ''none'', ''--processes=4'', geotiff_path, tile_output_dir];
                   tr2 = tr1 @ [Print (Bounds_are bnds), Print (Suggested_zoom_levels mn mx),
                                Makedirs tile_output_dir, Print (Running cmd), Run cmd]
               in (case run env cmd of
                     Inr _ \<Rightarrow>
                       (Inr (Some bnds, Some mn, Some mx),
                        tr2 @ [Print (Tiles_generated_successfully folder_name)])
                   | Inl e \<Rightarrow>
                       if e = CalledProcessError
                       then (Inr (None, None, None),
                             tr2 @ [Print (Error_generating_tiles folder_name)])
                       else (Inl e, tr2))))"

subsection \<open>\<^verbatim>\<open>update_map_config\<close>\<close>

text \<open>One value of the dict \<^verbatim>\<open>ortho_configs\<close>, and the dict in insertion order.\<close>

record ortho_config =
  bounds :: "bounds option"
  min_zoom :: "int option"
  max_zoom :: "int option"
  source_file :: string

type_synonym ortho_configs = "(string \<times> ortho_config) list"

text \<open>\<^verbatim>\<open>min(xs)\<close> and \<^verbatim>\<open>max(xs)\<close>, which raise on an empty sequence.\<close>

fun py_min :: "'a::linorder list \<Rightarrow> exn + 'a" where
  "py_min [] = Inl ValueError"
| "py_min (x # xs) = Inr (fold min xs x)"

fun py_max :: "'a::linorder list \<Rightarrow> exn + 'a" where
  "py_max [] = Inl ValueError"
| "py_max (x # xs) = Inr (fold max xs x)"

text \<open>Line 119: a dict of bounds has four keys, so it is true exactly when it is not \<^verbatim>\<open>None\<close>.\<close>

definition all_bounds :: "ortho_configs \<Rightarrow> bounds list" where
  "all_bounds ortho_configs = List.map_filter (\<lambda>(name, config). bounds config) ortho_configs"

text \<open>
  The four coordinates of a layer as numbers, in the order west, south, east, north.
  Between line 126 and line 132 every coordinate of every layer of \<^verbatim>\<open>all_bounds\<close> is
  compared, added and halved, with no effect in between: a coordinate that is not a number
  ends in a \<^verbatim>\<open>TypeError\<close> there, whichever operation meets it first.
\<close>

definition numeric_bounds :: "bounds \<Rightarrow> (real \<times> real \<times> real \<times> real) option" where
  "numeric_bounds b =
     (case (number (west b), number (south b), number (east b), number (north b)) of
        (Some w, Some s, Some e, Some n) \<Rightarrow> Some (w, s, e, n)
      | _ \<Rightarrow> None)"

fun numeric_all :: "bounds list \<Rightarrow> exn + (real \<times> real \<times> real \<times> real) list" where
  "numeric_all [] = Inr []"
| "numeric_all (b # bs) =
     (case numeric_bounds b of
        None \<Rightarrow> Inl TypeError
      | Some q \<Rightarrow> try_bind (numeric_all bs) (\<lambda>qs. Inr (q # qs)))"

text \<open>Lines 126 to 129, as \<open>(min_west, max_east, min_south, max_north)\<close>.\<close>

definition overall_bounds :: "bounds list \<Rightarrow> exn + real \<times> real \<times> real \<times> real" where
  "overall_bounds bs =
     try_bind (numeric_all bs) (\<lambda>qs.
     try_bind (py_min (map (\<lambda>(w, s, e, n). w) qs)) (\<lambda>min_west.
     try_bind (py_max (map (\<lambda>(w, s, e, n). e) qs)) (\<lambda>max_east.
     try_bind (py_min (map (\<lambda>(w, s, e, n). s) qs)) (\<lambda>min_south.
     try_bind (py_max (map (\<lambda>(w, s, e, n). n) qs)) (\<lambda>max_north.
       Inr (min_west, max_east, min_south, max_north))))))"

text \<open>Lines 131 and 132, as \<open>(center_lat, center_lng)\<close>.\<close>

definition center :: "real \<times> real \<times> real \<times> real \<Rightarrow> pyfloat \<times> pyfloat" where
  "center ob =
     (case ob of (min_west, max_east, min_south, max_north) \<Rightarrow>
        (float_div (round_float (min_south + max_north)) 2,
         float_div (round_float (min_west + max_east)) 2))"

text \<open>Lines 135 to 137.\<close>

definition max_range :: "real \<times> real \<times> real \<times> real \<Rightarrow> pyfloat" where
  "max_range ob =
     (case ob of (min_west, max_east, min_south, max_north) \<Rightarrow>
        float_max (round_float (max_north - min_south)) (round_float (max_east - min_west)))"

text \<open>Line 140.\<close>

definition initial_zoom :: "real \<times> real \<times> real \<times> real \<Rightarrow> exn + int" where
  "initial_zoom ob =
     try_bind (math_log2 (float_mul (max_range ob) 10)) (\<lambda>l.
     try_bind (int_of_float (float_rsub 10 l)) (\<lambda>t. Inr (max 1 t)))"

text \<open>
  Lines 143 to 147. A zoom level is kept when it is true: present and not zero.
\<close>

definition truthy_zoom :: "int option \<Rightarrow> int option" where
  "truthy_zoom z = (case z of None \<Rightarrow> None | Some n \<Rightarrow> if n = 0 then None else Some n)"

definition all_min_zooms :: "ortho_configs \<Rightarrow> int list" where
  "all_min_zooms ortho_configs =
     List.map_filter (\<lambda>(name, config). truthy_zoom (min_zoom config)) ortho_configs"

definition all_max_zooms :: "ortho_configs \<Rightarrow> int list" where
  "all_max_zooms ortho_configs =
     List.map_filter (\<lambda>(name, config). truthy_zoom (max_zoom config)) ortho_configs"

definition overall_min_zoom :: "ortho_configs \<Rightarrow> int" where
  "overall_min_zoom ortho_configs =
     (case py_min (all_min_zooms ortho_configs) of Inl _ \<Rightarrow> 5 | Inr z \<Rightarrow> z)"

definition overall_max_zoom :: "ortho_configs \<Rightarrow> int" where
  "overall_max_zoom ortho_configs =
     (case py_max (all_max_zooms ortho_configs) of Inl _ \<Rightarrow> 18 | Inr z \<Rightarrow> z)"

text \<open>The generated text, line by line; every line of a block ends with a newline.\<close>

definition unlines :: "string list \<Rightarrow> string" where
  "unlines ls = concat (map (\<lambda>l. l @ [CHR 0x0A]) ls)"

text \<open>Lines 150 to 164.\<close>

definition config_head :: "string \<Rightarrow> string \<Rightarrow> int \<Rightarrow> int \<Rightarrow> int \<Rightarrow> string" where
  "config_head lat lng zoom zmin zmax = unlines
     [''// Configuration - Auto-generated from ortho processing'',
      ''const CONFIG = {'',
      ''    initialView: {'',
      ''        lat: '' @ lat @ '','',
      ''        lng: '' @ lng @ '','',
      ''        zoom: '' @ str_int zoom,
      ''    },'',
      ''    '',
      ''    zoomLevels: {'',
      ''        min: '' @ str_int zmin @ '','',
      ''        max: '' @ str_int zmax,
      ''    },'',
      ''    '',
      ''    orthoLayers: ['']"

text \<open>Lines 167 to 182: the entry of one layer.\<close>

definition layer_entry :: "string \<Rightarrow> ortho_config \<Rightarrow> exn + string" where
  "layer_entry ortho_name config =
     (case bounds config of
        Some b \<Rightarrow>
          (case numeric_bounds b of
             None \<Rightarrow> Inl TypeError
           | Some (w, s, e, n) \<Rightarrow> Inr (unlines
               [''        {'',
                ''            name: '' @ [CHR 0x27] @ ortho_name @ [CHR 0x27] @ '','',
                ''            url: '' @ [CHR 0x27] @ ''../tiles/'' @ ortho_name
                   @ ''/{z}/{x}/{y}.png'' @ [CHR 0x27] @ '','',
                ''            bounds: [['' @ format_6f s @ '', '' @ format_6f w @ ''], [''
                   @ format_6f n @ '', '' @ format_6f e @ '']]'',
                ''        },'']))
      | None \<Rightarrow> Inr (unlines
          [''        {'',
           ''            name: '' @ [CHR 0x27] @ ortho_name @ [CHR 0x27] @ '','',
           ''            url: '' @ [CHR 0x27] @ ''../tiles/'' @ ortho_name
              @ ''/{z}/{x}/{y}.png'' @ [CHR 0x27] @ '','',
           ''            bounds: null'',
           ''        },'']))"

fun layer_entries :: "ortho_configs \<Rightarrow> exn + string" where
  "layer_entries [] = Inr []"
| "layer_entries ((ortho_name, config) # rest) =
     try_bind (layer_entry ortho_name config) (\<lambda>entry.
     try_bind (layer_entries rest) (\<lambda>entries. Inr (entry @ entries)))"

text \<open>
  Lines 184 to 211; the last line has no newline. The copyright sign is written as its
  two bytes in UTF-8.
\<close>

definition config_tail :: string where
  "config_tail = unlines
     [''    ]'',
      ''};'',
      [],
      ''// Initialize the map'',
      ''const map = L.map('' @ [CHR 0x27] @ ''map'' @ [CHR 0x27]
         @ '').setView([CONFIG.initialView.lat, CONFIG.initialView.lng], CONFIG.initialView.zoom);'',
      [],
      ''// Add OpenStreetMap base layer with 50% transparency'',
      ''const osmLayer = L.tileLayer('' @ [CHR 0x27]
         @ ''https://{s}.tile.openstreetmap.org/{z}/{x}/{y}.png'' @ [CHR 0x27] @ '', {'',
      ''    attribution: '' @ [CHR 0x27, CHR 0xC2, CHR 0xA9] @ '' OpenStreetMap contributors''
         @ [CHR 0x27] @ '','',
      ''    opacity: 0.5,'',
      ''    maxZoom: 19'',
      ''});'',
      ''osmLayer.addTo(map);'',
      [],
      ''// Dynamically add ortho tile layers'',
      ''CONFIG.orthoLayers.forEach(layerConfig => {'',
      ''    const layer = L.tileLayer(layerConfig.url, {'',
      ''        attribution: layerConfig.name,'',
      ''        maxZoom: CONFIG.zoomLevels.max,'',
      ''        tms: false,'',
      ''        bounds: layerConfig.bounds'',
      ''    });'',
      ''    layer.addTo(map);'',
      ''});'',
      [],
      ''// Set zoom limits'',
      ''map.options.minZoom = CONFIG.zoomLevels.min;'']
     @ ''map.options.maxZoom = CONFIG.zoomLevels.max;''"

definition update_map_config ::
  "ortho_configs \<Rightarrow> string \<Rightarrow> trace \<Rightarrow> (exn + unit) \<times> trace" where
  "update_map_config ortho_configs output_dir tr =
     (if all_bounds ortho_configs = []
      then (Inr (), tr @ [Print No_valid_ortho_bounds_found])
      else
        (case overall_bounds (all_bounds ortho_configs) of
           Inl e \<Rightarrow> (Inl e, tr)
         | Inr ob \<Rightarrow>
             (case initial_zoom ob of
                Inl e \<Rightarrow> (Inl e, tr)
              | Inr zoom \<Rightarrow>
                  (case layer_entries ortho_configs of
                     Inl e \<Rightarrow> (Inl e, tr)
                   | Inr entries \<Rightarrow>
                       let center_lat = format_float (fst (center ob));
                           center_lng = format_float (snd (center ob));
                           zmin = overall_min_zoom ortho_configs;
                           zmax = overall_max_zoom ortho_configs;
                           js_config = config_head center_lat center_lng zoom zmin zmax
                                         @ entries @ config_tail;
                           js_file = path_join (path_join (path_join output_dir ''web'') ''js'')
                                       ''map.js''
                       in (Inr (),
                           tr @ [Write js_file js_config,
                                 Print Updated_map_configuration,
                                 Print (Center center_lat center_lng),
                                 Print (Initial_zoom zoom),
                                 Print (Zoom_range zmin zmax)])))))"

subsection \<open>\<^verbatim>\<open>main\<close>\<close>

text \<open>Lines 233 to 242: only \<^verbatim>\<open>CalledProcessError\<close> is caught.\<close>

definition check_gdal :: "env \<Rightarrow> trace \<Rightarrow> (exn + unit) \<times> trace" where
  "check_gdal env tr =
     (let not_found = [Print GDAL_tools_not_found, Print Install_hint_ubuntu,
                       Print Install_hint_macos, Print Install_hint_windows];
          tr1 = tr @ [Run [''gdalinfo'', ''--version'']]
      in case run env [''gdalinfo'', ''--version''] of
           Inl e \<Rightarrow>
             if e = CalledProcessError then (Inl (SystemExit 1), tr1 @ not_found)
             else (Inl e, tr1)
         | Inr _ \<Rightarrow>
             let tr2 = tr1 @ [Run [''gdal2tiles.py'', ''--help'']]
             in (case run env [''gdal2tiles.py'', ''--help''] of
                   Inl e \<Rightarrow>
                     if e = CalledProcessError then (Inl (SystemExit 1), tr2 @ not_found)
                     else (Inl e, tr2)
                 | Inr _ \<Rightarrow> (Inr (), tr2)))"

text \<open>
  \<^verbatim>\<open>list(d.glob('*' + ext))\<close>: the entries of the directory whose name ends with \<open>ext\<close>,
  compared character by character as on a case-sensitive file system.
\<close>

definition glob :: "env \<Rightarrow> string \<Rightarrow> string \<Rightarrow> string list" where
  "glob env d ext = filter (\<lambda>name. endswith name ext) (listdir env d)"

text \<open>
  Lines 261 to 271: the loop over the files. A file is its name; its path is the
  directory joined with the name.
\<close>

fun process_files ::
  "env \<Rightarrow> string \<Rightarrow> string \<Rightarrow> string list \<Rightarrow> ortho_configs \<Rightarrow> trace
     \<Rightarrow> (exn + ortho_configs) \<times> trace" where
  "process_files env geotiff_dir tiles_dir [] ortho_configs tr = (Inr ortho_configs, tr)"
| "process_files env geotiff_dir tiles_dir (name # rest) ortho_configs tr =
     (case generate_tiles env (path_join geotiff_dir name) tiles_dir (stem name) tr of
        (Inl e, tr1) \<Rightarrow> (Inl e, tr1)
      | (Inr (b, mn, mx), tr1) \<Rightarrow>
          process_files env geotiff_dir tiles_dir rest
            (AList.update (stem name)
               \<lparr>bounds = b, min_zoom = mn, max_zoom = mx, source_file = name\<rparr> ortho_configs)
            tr1)"

definition geotiff_files :: "env \<Rightarrow> string \<Rightarrow> string list" where
  "geotiff_files env geotiff_dir = glob env geotiff_dir ''.tif'' @ glob env geotiff_dir ''.tiff''"

definition main :: "env \<Rightarrow> string \<Rightarrow> trace \<Rightarrow> (exn + unit) \<times> trace" where
  "main env project_dir tr =
     (let geotiff_dir = path_join project_dir ''orthos'';
          tiles_dir = path_join project_dir ''tiles''
      in case check_gdal env (tr @ [Print Banner, Print Rule]) of
           (Inl e, tr1) \<Rightarrow> (Inl e, tr1)
         | (Inr _, tr1) \<Rightarrow>
             let files = geotiff_files env geotiff_dir
             in if files = []
                then (Inl (SystemExit 1),
                      tr1 @ [Print (No_GeoTIFF_files_found geotiff_dir),
                             Print Please_place_your_files])
                else
                  (case process_files env geotiff_dir tiles_dir files []
                          (tr1 @ Print (Found_files (length files))
                             # map (\<lambda>(i, f). Print (File_item i f))
                                 (zip [1 ..< Suc (length files)] files)) of
                     (Inl e, tr2) \<Rightarrow> (Inl e, tr2)
                   | (Inr ortho_configs, tr2) \<Rightarrow>
                       (case update_map_config ortho_configs project_dir
                               (tr2 @ [Print Updating_map_configuration]) of
                          (Inl e, tr3) \<Rightarrow> (Inl e, tr3)
                        | (Inr _, tr3) \<Rightarrow>
                            (Inr (),
                             tr3 @ [Print Tile_generation_complete,
                                    Print (Generated_tiles_in tiles_dir),
                                    Print Updated_map_configuration_done,
                                    Print To_view_your_map, Print Upload_step,
                                    Print Hosting_step, Print Index_step]))))"

text \<open>
  The exit status of the process: 0 when \<^verbatim>\<open>main\<close> returns, the argument of
  \<^verbatim>\<open>sys.exit\<close>, and 1 for an exception that nothing catches.
\<close>

fun exit_code :: "exn + unit \<Rightarrow> int" where
  "exit_code (Inr _) = 0"
| "exit_code (Inl (SystemExit n)) = n"
| "exit_code (Inl _) = 1"

subsection \<open>Observations and sample runs\<close>

text \<open>The content of file \<open>p\<close> that a trace leaves: that of the last write to it.\<close>

fun written :: "string \<Rightarrow> trace \<Rightarrow> string option" where
  "written p [] = None"
| "written p (e # es) =
     (case written p es of
        Some c \<Rightarrow> Some c
      | None \<Rightarrow> (case e of Write q c \<Rightarrow> if q = p then Some c else None | _ \<Rightarrow> None))"

text \<open>
  The entry that \<^verbatim>\<open>main\<close> stores for a file whose \<^verbatim>\<open>generate_tiles\<close> returned three
  \<^verbatim>\<open>None\<close>.
\<close>

definition failed_layer :: "string \<Rightarrow> ortho_config" where
  "failed_layer name = \<lparr>bounds = None, min_zoom = None, max_zoom = None, source_file = name\<rparr>"

text \<open>
  Metadata extraction fails in one of the two ways that \<^verbatim>\<open>get_geotiff_info\<close> handles:
  \<^verbatim>\<open>gdalinfo\<close> exits with a status other than 0, or its output is not JSON.
\<close>

definition extraction_fails :: "env \<Rightarrow> string \<Rightarrow> bool" where
  "extraction_fails env geotiff_path =
     (case run env [''gdalinfo'', ''-json'', geotiff_path] of
        Inl e \<Rightarrow> e = CalledProcessError
      | Inr out \<Rightarrow> json_loads env out = None)"

text \<open>
  A scripted world: the names of the input directory, a table of the commands that do not
  simply succeed, and a table from outputs of \<^verbatim>\<open>gdalinfo\<close> to the documents they parse to.
\<close>

definition scripted_env ::
  "string list \<Rightarrow> (string list \<times> (exn + string)) list \<Rightarrow> (string \<times> json) list \<Rightarrow> env" where
  "scripted_env names runs docs =
     \<lparr>run = (\<lambda>cmd. case map_of runs cmd of Some r \<Rightarrow> r | None \<Rightarrow> Inr []),
      json_loads = map_of docs,
      listdir = (\<lambda>d. names)\<rparr>"

text \<open>
  A document as \<^verbatim>\<open>gdalinfo -json\<close> prints it for a georeferenced raster of 1024 by 1024
  pixels, with a pixel of \<open>2 ^ 20\<close>-th of the resolution of zoom 0 (about 0.15).
\<close>

definition sample_pixel_size :: real where
  "sample_pixel_size = meters_per_pixel_zoom0 / 2 ^ 20"

definition sample_info :: "real \<Rightarrow> real \<Rightarrow> real \<Rightarrow> real \<Rightarrow> json" where
  "sample_info w s e n =
     JObj [(''size'', JArr [JNum 1024, JNum 1024]),
           (''cornerCoordinates'',
              JObj [(''upperLeft'', JArr [JNum w, JNum n]), (''lowerLeft'', JArr [JNum w, JNum s]),
                    (''lowerRight'', JArr [JNum e, JNum s]), (''upperRight'', JArr [JNum e, JNum n])]),
           (''geoTransform'',
              JArr [JNum w, JNum sample_pixel_size, JNum 0,
                    JNum n, JNum 0, JNum (- sample_pixel_size)])]"

text \<open>Two rasters; \<^verbatim>\<open>gdalinfo\<close> fails on the first.\<close>

definition one_failing_env :: env where
  "one_failing_env = scripted_env [''a.tif'', ''b.tif'']
     [([''gdalinfo'', ''-json'', ''/p/orthos/a.tif''], Inl CalledProcessError),
      ([''gdalinfo'', ''-json'', ''/p/orthos/b.tif''], Inr ''B'')]
     [(''B'', sample_info 0 0 1 1)]"

text \<open>Two rasters with the same stem; \<^verbatim>\<open>gdalinfo\<close> fails on the \<^verbatim>\<open>.tif\<close> one.\<close>

definition collision_env :: env where
  "collision_env = scripted_env [''a.tif'', ''a.tiff'']
     [([''gdalinfo'', ''-json'', ''/p/orthos/a.tif''], Inl CalledProcessError),
      ([''gdalinfo'', ''-json'', ''/p/orthos/a.tiff''], Inr ''A'')]
     [(''A'', sample_info 0 0 1 1)]"

text \<open>One raster, on which \<^verbatim>\<open>gdalinfo\<close> fails.\<close>

definition all_failing_env :: env where
  "all_failing_env = scripted_env [''a.tif'']
     [([''gdalinfo'', ''-json'', ''/p/orthos/a.tif''], Inl CalledProcessError)] []"

text \<open>
  One raster without georeferencing: the document has no \<^verbatim>\<open>geoTransform\<close> entry, and its
  corners are pixel coordinates.
\<close>

definition no_geotransform_env :: env where
  "no_geotransform_env = scripted_env [''a.tif'']
     [([''gdalinfo'', ''-json'', ''/p/orthos/a.tif''], Inr ''A'')]
     [(''A'', JObj [(''size'', JArr [JNum 1024, JNum 1024]),
                    (''cornerCoordinates'',
                       JObj [(''lowerLeft'', JArr [JNum 0, JNum 1024]),
                             (''upperRight'', JArr [JNum 1024, JNum 0])])])]"

text \<open>One raster, on which \<^verbatim>\<open>gdal2tiles.py\<close> fails.\<close>

definition tiles_fail_env :: env where
  "tiles_fail_env = scripted_env [''a.tif'']
     [([''gdalinfo'', ''-json'', ''/p/orthos/a.tif''], Inr ''A''),
      ([''gdal2tiles.py'', ''-z'', ''12-22'', ''-w'', ''none'', ''--processes=4'',
        ''/p/orthos/a.tif'', ''/p/tiles/a''], Inl CalledProcessError)]
     [(''A'', sample_info 0 0 1 1)]"


text \<open>The double nearest to 0.8, and the largest power of two that is a double.\<close>

definition double_0_8 :: real where
  "double_0_8 = 3602879701896397 / 2 ^ 52"

definition huge_extent :: real where
  "huge_extent = 2 ^ 1023"

text \<open>
  One layer of 0.8 by 0.8 degrees; one of 300 by 90 degrees around the origin; one that is
  \<open>huge_extent\<close> high; and the three layers of the example of the specification.
\<close>

definition square_layer :: ortho_configs where
  "square_layer =
     [(''a'', \<lparr>bounds = Some \<lparr>west = JNum 0, south = JNum 0, east = JNum double_0_8,
                               north = JNum double_0_8\<rparr>,
              min_zoom = Some 12, max_zoom = Some 22, source_file = ''a.tif''\<rparr>)]"

definition wide_layer :: ortho_configs where
  "wide_layer =
     [(''a'', \<lparr>bounds = Some \<lparr>west = JNum (- 150), south = JNum (- 40), east = JNum 150,
                               north = JNum 50\<rparr>,
              min_zoom = Some 12, max_zoom = Some 22, source_file = ''a.tif''\<rparr>)]"

definition huge_layer :: ortho_configs where
  "huge_layer =
     [(''a'', \<lparr>bounds = Some \<lparr>west = JNum 0, south = JNum 0, east = JNum 1,
                               north = JNum huge_extent\<rparr>,
              min_zoom = Some 12, max_zoom = Some 22, source_file = ''a.tif''\<rparr>)]"

definition three_layers :: ortho_configs where
  "three_layers =
     [(''a'', \<lparr>bounds = Some \<lparr>west = JNum (- 1), south = JNum 0, east = JNum 1, north = JNum 2\<rparr>,
              min_zoom = Some 12, max_zoom = Some 22, source_file = ''a.tif''\<rparr>),
      (''b'', \<lparr>bounds = Some \<lparr>west = JNum 2, south = JNum 1, east = JNum 3, north = JNum 3\<rparr>,
              min_zoom = Some 12, max_zoom = Some 22, source_file = ''b.tif''\<rparr>),
      (''c'', \<lparr>bounds = Some \<lparr>west = JNum (- 2), south = JNum (- 1), east = JNum 0, north = JNum 1\<rparr>,
              min_zoom = Some 12, max_zoom = Some 22, source_file = ''c.tif''\<rparr>)]"

section \<open>Properties\<close>

subsection \<open>Rounding to a double\<close>

text \<open>Rounding to the nearest integer: an integer is kept, and the error is at most a half.\<close>

lemma round_half_even_of_int [simp]: "round_half_even (of_int k) = k"
  by (simp add: round_half_even_def)

lemma round_half_even_ge: "\<lfloor>y\<rfloor> \<le> round_half_even y"
  by (simp add: round_half_even_def Let_def)

lemma round_half_even_le: "round_half_even y \<le> \<lceil>y\<rceil>"
proof -
  have "y \<noteq> of_int \<lfloor>y\<rfloor> \<Longrightarrow> \<lceil>y\<rceil> = \<lfloor>y\<rfloor> + 1"
    by (metis ceiling_altdef of_int_floor_cancel)
  moreover have "y = of_int \<lfloor>y\<rfloor> \<Longrightarrow> round_half_even y = \<lfloor>y\<rfloor>"
    by (metis round_half_even_of_int)
  ultimately show ?thesis
    by (cases "y = of_int \<lfloor>y\<rfloor>") (auto simp: round_half_even_def Let_def)
qed

lemma round_half_even_error: "\<bar>of_int (round_half_even y) - y\<bar> \<le> 1 / 2"
  unfolding round_half_even_def Let_def by (auto; linarith)

text \<open>The exponent of a number, clipped at that of the smallest normal double.\<close>

lemma ulp_pos: "0 < ulp x"
  by (simp add: ulp_def)

lemma binade_ge: "- 1022 \<le> binade x"
  by (simp add: binade_def)

lemma binade_mono: "0 < a \<Longrightarrow> a \<le> x \<Longrightarrow> binade a \<le> binade x"
  unfolding binade_def by (intro max.mono order_refl floor_mono) simp

lemma binade_lower: "- 1022 < binade x \<Longrightarrow> x \<noteq> 0 \<Longrightarrow> 2 powr of_int (binade x) \<le> \<bar>x\<bar>"
proof -
  assume a: "- 1022 < binade x" and x: "x \<noteq> 0"
  then have "binade x = \<lfloor>log 2 \<bar>x\<bar>\<rfloor>" by (simp add: binade_def max_def split: if_splits)
  then have "of_int (binade x) \<le> log 2 \<bar>x\<bar>" by simp
  then show ?thesis using x by (simp add: le_log_iff)
qed

lemma binade_upper: "x \<noteq> 0 \<Longrightarrow> \<bar>x\<bar> < 2 powr (of_int (binade x) + 1)"
proof -
  assume x: "x \<noteq> 0"
  have "log 2 \<bar>x\<bar> < of_int \<lfloor>log 2 \<bar>x\<bar>\<rfloor> + 1" by linarith
  also have "\<dots> \<le> of_int (binade x) + 1" by (simp add: binade_def)
  finally show ?thesis using x by (simp add: log_less_iff)
qed

text \<open>
  The doubles: a number \<open>m * 2 ^ j\<close> with \<open>\<bar>m\<bar> < 2 ^ 53\<close> and \<open>j\<close> at least \<open>-1074\<close> is
  rounded to itself. (An upper limit on \<open>j\<close> is the business of \<open>round_float\<close>.)
\<close>

lemma fl_exact:
  assumes m: "\<bar>m\<bar> < 2 ^ 53" and j: "- 1074 \<le> j"
  shows "fl (of_int m * 2 powr of_int j) = of_int m * 2 powr of_int j"
proof (cases "m = 0")
  case True
  then show ?thesis by (simp add: fl_def)
next
  case False
  let ?x = "of_int m * 2 powr of_int j :: real"
  have x: "?x \<noteq> 0" using False by simp
  have "\<bar>?x\<bar> = of_int \<bar>m\<bar> * 2 powr of_int j"
    by (simp add: abs_mult)
  also have "\<dots> < 2 ^ 53 * 2 powr of_int j"
  proof -
    have "(of_int \<bar>m\<bar> :: real) < of_int (2 ^ 53)"
      using m by (simp only: of_int_less_iff)
    then show ?thesis by simp
  qed
  also have "\<dots> = 2 powr (of_int j + 53)"
    by (simp add: powr_add powr_realpow[symmetric])
  finally have "log 2 \<bar>?x\<bar> < of_int j + 53"
    using x by (simp add: log_less_iff)
  then have "\<lfloor>log 2 \<bar>?x\<bar>\<rfloor> < j + 53"
    by (simp add: floor_less_iff)
  then have e: "binade ?x \<le> j + 52"
    using j by (simp add: binade_def)
  define k where "k = nat (j + 52 - binade ?x)"
  have k: "of_int j - (of_int (binade ?x) - 52) = (real k)"
    using e by (simp add: k_def)
  have "?x / ulp ?x = of_int m * 2 powr (of_int j - (of_int (binade ?x) - 52))"
    by (simp add: ulp_def powr_diff)
  also have "\<dots> = of_int (m * 2 ^ k)"
    unfolding k by (simp add: powr_realpow)
  finally have "round_half_even (?x / ulp ?x) = m * 2 ^ k"
    by (simp only: round_half_even_of_int)
  moreover have "of_int (m * 2 ^ k) * ulp ?x = ?x"
  proof -
    have "of_int (m * 2 ^ k) * ulp ?x = of_int m * (2 powr real k * 2 powr (of_int (binade ?x) - 52))"
      by (simp add: ulp_def powr_realpow)
    also have "\<dots> = of_int m * 2 powr (real k + (of_int (binade ?x) - 52))"
      by (simp only: powr_add)
    also have "real k + (of_int (binade ?x) - 52) = of_int j"
      using k by simp
    finally show ?thesis .
  qed
  ultimately show ?thesis
    using x by (simp add: fl_def)
qed

lemma fl_of_int: "\<bar>m\<bar> < 2 ^ 53 \<Longrightarrow> fl (of_int m) = of_int m"
  using fl_exact[of m 0] by simp

lemma fl_numeral: "numeral n < (2 ^ 53 :: int) \<Longrightarrow> fl (numeral n) = numeral n"
  using fl_of_int[of "numeral n"] by simp

lemma fl_neg_numeral: "numeral n < (2 ^ 53 :: int) \<Longrightarrow> fl (- numeral n) = - numeral n"
  using fl_of_int[of "- numeral n"] by simp

lemma fl_0 [simp]: "fl 0 = 0" by (simp add: fl_def)
lemma fl_1 [simp]: "fl 1 = 1" using fl_of_int[of 1] by simp

text \<open>The error of rounding is at most half the spacing of the doubles around the number.\<close>

lemma fl_error: "\<bar>fl x - x\<bar> \<le> ulp x / 2"
proof (cases "x = 0")
  case True
  then show ?thesis using ulp_pos[of x] by (simp add: fl_def)
next
  case False
  have "fl x - x = (of_int (round_half_even (x / ulp x)) - x / ulp x) * ulp x"
    using False ulp_pos[of x] by (simp add: fl_def left_diff_distrib)
  then have "\<bar>fl x - x\<bar> = \<bar>of_int (round_half_even (x / ulp x)) - x / ulp x\<bar> * ulp x"
    using ulp_pos[of x] by (simp add: abs_mult)
  also have "\<dots> \<le> 1 / 2 * ulp x"
    by (intro mult_right_mono round_half_even_error) (simp add: ulp_pos less_imp_le)
  finally show ?thesis by simp
qed

text \<open>Rounding does not cross a double: first for positive numbers, then for all.\<close>

lemma fl_lower:
  assumes a: "0 < a" and ax: "a \<le> x" and rep: "fl a = a"
  shows "a \<le> fl x"
proof -
  have x: "0 < x" using a ax by simp
  let ?u = "ulp x"
  have flx: "fl x = of_int (round_half_even (x / ?u)) * ?u"
    using x by (simp add: fl_def)
  have be: "binade a \<le> binade x" using binade_mono[OF a ax] .
  show ?thesis
  proof (cases "binade a = binade x")
    case True
    then have u: "ulp a = ?u" by (simp add: ulp_def)
    from rep a have "a = of_int (round_half_even (a / ?u)) * ?u"
      by (simp add: fl_def u)
    then have ka: "a / ?u = of_int (round_half_even (a / ?u))"
      using ulp_pos[of x] by (simp add: field_simps)
    have "a / ?u \<le> x / ?u"
      using ax ulp_pos[of x] by (simp add: divide_right_mono)
    then have "of_int (round_half_even (a / ?u)) \<le> x / ?u"
      using ka by simp
    then have "round_half_even (a / ?u) \<le> \<lfloor>x / ?u\<rfloor>"
      by (simp add: le_floor_iff)
    also have "\<dots> \<le> round_half_even (x / ?u)"
      by (rule round_half_even_ge)
    finally have "(of_int (round_half_even (a / ?u)) :: real) \<le> of_int (round_half_even (x / ?u))"
      by simp
    then have "of_int (round_half_even (a / ?u)) * ?u \<le> of_int (round_half_even (x / ?u)) * ?u"
      using ulp_pos[of x] by (simp add: mult_right_mono)
    then show ?thesis
      using \<open>a = of_int (round_half_even (a / ?u)) * ?u\<close> flx by simp
  next
    case False
    with be have lt: "binade a < binade x" by simp
    then have n: "- 1022 < binade x" using binade_ge[of a] by simp
    have lo: "2 powr of_int (binade x) \<le> x"
      using binade_lower[OF n] x by simp
    have "a < 2 powr (of_int (binade a) + 1)"
      using binade_upper[of a] a by simp
    also have "\<dots> \<le> 2 powr of_int (binade x)"
      using lt by (simp add: powr_mono)
    finally have ab: "a < 2 powr of_int (binade x)" .
    have "(2 ^ 52 :: real) = 2 powr of_int (binade x) / ?u"
      by (simp add: ulp_def powr_diff)
    also have "\<dots> \<le> x / ?u"
      using lo ulp_pos[of x] by (simp add: divide_right_mono)
    finally have "(of_int (2 ^ 52) :: real) \<le> x / ?u" by simp
    then have "(2 ^ 52 :: int) \<le> \<lfloor>x / ?u\<rfloor>"
      by (simp only: le_floor_iff)
    also have "\<dots> \<le> round_half_even (x / ?u)"
      by (rule round_half_even_ge)
    finally have "(of_int (2 ^ 52) :: real) \<le> of_int (round_half_even (x / ?u))"
      by (simp only: of_int_le_iff)
    then have "2 ^ 52 * ?u \<le> of_int (round_half_even (x / ?u)) * ?u"
      using ulp_pos[of x] by (simp add: mult_right_mono)
    moreover have "2 ^ 52 * ?u = 2 powr of_int (binade x)"
      by (simp add: ulp_def powr_diff)
    ultimately show ?thesis
      using ab flx by simp
  qed
qed

lemma fl_upper:
  assumes x: "0 < x" and xb: "x \<le> b" and rep: "fl b = b"
  shows "fl x \<le> b"
proof -
  have b: "0 < b" using x xb by simp
  let ?u = "ulp x"
  have flx: "fl x = of_int (round_half_even (x / ?u)) * ?u"
    using x by (simp add: fl_def)
  have be: "binade x \<le> binade b" using binade_mono[OF x xb] .
  show ?thesis
  proof (cases "binade b = binade x")
    case True
    then have u: "ulp b = ?u" by (simp add: ulp_def)
    from rep b have bb: "b = of_int (round_half_even (b / ?u)) * ?u"
      by (simp add: fl_def u)
    then have kb: "b / ?u = of_int (round_half_even (b / ?u))"
      using ulp_pos[of x] by (simp add: field_simps)
    have "x / ?u \<le> b / ?u"
      using xb ulp_pos[of x] by (simp add: divide_right_mono)
    then have "x / ?u \<le> of_int (round_half_even (b / ?u))"
      using kb by simp
    then have "\<lceil>x / ?u\<rceil> \<le> round_half_even (b / ?u)"
      by (simp add: ceiling_le_iff)
    with round_half_even_le[of "x / ?u"]
    have "(of_int (round_half_even (x / ?u)) :: real) \<le> of_int (round_half_even (b / ?u))"
      by simp
    then have "of_int (round_half_even (x / ?u)) * ?u \<le> of_int (round_half_even (b / ?u)) * ?u"
      using ulp_pos[of x] by (simp add: mult_right_mono)
    then show ?thesis
      using bb flx by simp
  next
    case False
    with be have lt: "binade x < binade b" by simp
    then have n: "- 1022 < binade b" using binade_ge[of x] by simp
    have "(2::real) powr (of_int (binade x) + 1) \<le> 2 powr of_int (binade b)"
      using lt by (simp add: powr_mono)
    also have "\<dots> \<le> b"
      using binade_lower[OF n] b by simp
    finally have hb: "2 powr (of_int (binade x) + 1) \<le> b" .
    have "x / ?u < 2 powr (of_int (binade x) + 1) / ?u"
      using binade_upper[of x] x ulp_pos[of x] by (simp add: divide_strict_right_mono)
    also have "\<dots> = 2 ^ 53"
      by (simp add: ulp_def powr_diff[symmetric])
    finally have "x / ?u \<le> of_int (2 ^ 53)" by simp
    then have "\<lceil>x / ?u\<rceil> \<le> 2 ^ 53"
      by (simp only: ceiling_le_iff)
    with round_half_even_le[of "x / ?u"]
    have "(of_int (round_half_even (x / ?u)) :: real) \<le> of_int (2 ^ 53)"
      by (simp only: of_int_le_iff)
    then have "of_int (round_half_even (x / ?u)) * ?u \<le> 2 ^ 53 * ?u"
      using ulp_pos[of x] by (simp add: mult_right_mono)
    moreover have "2 ^ 53 * ?u = 2 powr (of_int (binade x) + 1)"
    proof -
      have "(2::real) powr (of_int (binade x) + 1) = 2 powr 53 * 2 powr (of_int (binade x) - 52)"
        by (simp only: powr_add[symmetric]) (simp add: add.commute)
      then show ?thesis by (simp add: ulp_def)
    qed
    ultimately show ?thesis
      using hb flx by simp
  qed
qed

lemma round_half_even_minus: "round_half_even (- y) = - round_half_even y"
proof (cases "y = of_int \<lfloor>y\<rfloor>")
  case True
  then obtain k where "y = of_int k" ..
  then show ?thesis
    by (simp add: round_half_even_of_int[of "- k", simplified])
next
  case False
  then have c: "\<lceil>y\<rceil> = \<lfloor>y\<rfloor> + 1"
    by (metis ceiling_altdef of_int_floor_cancel)
  have f: "\<lfloor>- y\<rfloor> = - \<lfloor>y\<rfloor> - 1"
    using c by (simp add: floor_minus)
  show ?thesis
    unfolding round_half_even_def Let_def f
    by (auto simp: algebra_simps)
qed

lemma binade_minus [simp]: "binade (- x) = binade x"
  by (simp add: binade_def)

lemma ulp_minus [simp]: "ulp (- x) = ulp x"
  by (simp add: ulp_def)

lemma fl_minus: "fl (- x) = - fl x"
  by (simp add: fl_def round_half_even_minus)

lemma fl_between:
  assumes "0 < a" "a \<le> x" "x \<le> b" "fl a = a" "fl b = b"
  shows "a \<le> fl x" "fl x \<le> b"
  using assms fl_lower[of a x] fl_upper[of x b] by simp_all

lemma fl_between_neg:
  assumes "b < 0" "a \<le> x" "x \<le> b" "fl a = a" "fl b = b"
  shows "a \<le> fl x" "fl x \<le> b"
proof -
  have "- b \<le> fl (- x)" "fl (- x) \<le> - a"
    using assms fl_between[of "- b" "- x" "- a"] by (simp_all add: fl_minus)
  then show "a \<le> fl x" "fl x \<le> b"
    by (simp_all add: fl_minus)
qed

text \<open>The smallest positive double is \<open>2 ^ - 1074\<close>, and rounding keeps the sign.\<close>

lemma fl_pos_ge:
  assumes "0 < fl x"
  shows "2 powr (- 1074) \<le> fl x"
proof -
  have x: "x \<noteq> 0" using assms by (auto simp: fl_def)
  then have f: "fl x = of_int (round_half_even (x / ulp x)) * ulp x"
    by (simp add: fl_def)
  with assms ulp_pos[of x] have "0 < (of_int (round_half_even (x / ulp x)) :: real)"
    by (simp add: zero_less_mult_iff)
  then have "1 \<le> round_half_even (x / ulp x)"
    by simp
  then have "(1::real) \<le> of_int (round_half_even (x / ulp x))"
    by (simp only: of_int_1_le_iff)
  then have "1 * ulp x \<le> fl x"
    unfolding f using ulp_pos[of x] by (intro mult_right_mono) simp_all
  moreover have "2 powr (- 1074) \<le> ulp x"
    using binade_ge[of x] by (simp add: ulp_def)
  ultimately show ?thesis by simp
qed

lemma fl_nonneg: "0 \<le> x \<Longrightarrow> 0 \<le> fl x"
proof -
  assume "0 \<le> x"
  then have "0 \<le> round_half_even (x / ulp x)"
    using round_half_even_ge[of "x / ulp x"] ulp_pos[of x]
    by (meson divide_nonneg_pos order_trans zero_le_floor)
  then show ?thesis
    using ulp_pos[of x] by (simp add: fl_def)
qed

lemma fl_ge:
  assumes "a \<le> x" and "fl a = a"
  shows "a \<le> fl x"
proof (cases "0 < a")
  case True
  then show ?thesis using assms by (intro fl_lower)
next
  case False
  show ?thesis
  proof (cases "0 \<le> x")
    case True
    then show ?thesis using fl_nonneg[of x] False by simp
  next
    case x: False
    then have "fl (- x) \<le> - a"
      using assms by (intro fl_upper) (simp_all add: fl_minus)
    then show ?thesis by (simp add: fl_minus)
  qed
qed

lemma fl_le:
  assumes "x \<le> b" and "fl b = b"
  shows "fl x \<le> b"
  using fl_ge[of "- b" "- x"] assms by (simp add: fl_minus)

text \<open>Some doubles, and the range in which \<open>round_float\<close> gives a finite float.\<close>

lemma fl_power2: "n \<le> 1023 \<Longrightarrow> fl (2 ^ n) = 2 ^ n"
  using fl_exact[of 1 "int n"] by (simp add: powr_realpow)

lemma fl_inverse_power2: "n \<le> 1074 \<Longrightarrow> fl (1 / 2 ^ n) = 1 / 2 ^ n"
  using fl_exact[of 1 "- int n"] by (simp add: powr_minus_divide powr_realpow)

lemma overflow_threshold_gt: "2 ^ 1023 < overflow_threshold"
  by (simp add: overflow_threshold_def)

lemma round_float_finite:
  "\<bar>x\<bar> < overflow_threshold \<Longrightarrow> round_float x = Finite (fl x)"
  by (auto simp: round_float_def)

lemma fl_quarters: "\<bar>m\<bar> < 2 ^ 53 \<Longrightarrow> fl (of_int m / 4) = of_int m / 4"
  using fl_exact[of m "- 2"] by (simp add: powr_minus_divide)

lemma fl_quarters_between:
  assumes "of_int a / 4 \<le> x" and "x \<le> of_int b / 4" and "\<bar>a\<bar> < 2 ^ 53" and "\<bar>b\<bar> < 2 ^ 53"
  shows "of_int a / 4 \<le> fl x" and "fl x \<le> of_int b / 4"
proof -
  show "of_int a / 4 \<le> fl x"
    using assms(1) fl_quarters[OF assms(3)] by (rule fl_ge)
  show "fl x \<le> of_int b / 4"
    using assms(2) fl_quarters[OF assms(4)] by (rule fl_le)
qed

lemma round_float_overflow:
  assumes "overflow_threshold \<le> x"
  shows "2 ^ 1023 \<le> fl x"
proof -
  have "2 ^ 1023 \<le> x"
    using assms overflow_threshold_gt by simp
  then show ?thesis
    by (intro fl_ge fl_power2) simp_all
qed

lemma fl_nonpos: "x \<le> 0 \<Longrightarrow> fl x \<le> 0"
  using fl_nonneg[of "- x"] by (simp add: fl_minus)

lemma overflow_threshold_pos: "0 < overflow_threshold"
  by (simp add: overflow_threshold_def)

lemma overflow_threshold_lt: "overflow_threshold < 2 ^ 1024"
  by (simp add: overflow_threshold_def)

lemma round_float_cases:
  "round_float x = (if overflow_threshold \<le> x then PInf
                    else if x \<le> - overflow_threshold then NInf else Finite (fl x))"
  by (simp add: round_float_def)

lemma fl_smallest: "fl (2 powr (- 1074)) = 2 powr (- 1074)"
  using fl_exact[of 1 "- 1074"] by simp

lemma round_half_even_quarter: "round_half_even (of_int k + 1 / 4) = k"
proof -
  have "\<lfloor>of_int k + (1 / 4 :: real)\<rfloor> = k"
    by (simp add: floor_eq_iff)
  then show ?thesis
    by (simp add: round_half_even_def Let_def)
qed

subsection \<open>Arithmetic of the zoom estimates\<close>

text \<open>Truncation, and how it relates to the floor under a maximum with 1.\<close>

lemma py_int_of_int [simp]: "py_int (of_int k) = k"
  by (simp add: py_int_def)

lemma py_int_numeral [simp]: "py_int (numeral n) = numeral n" "py_int (- numeral n) = - numeral n"
  using py_int_of_int[of "numeral n"] py_int_of_int[of "- numeral n"] by simp_all

lemma py_int_bounds:
  "real_of_int k \<le> x \<Longrightarrow> x < real_of_int k + 1 \<Longrightarrow> 0 \<le> k \<Longrightarrow> py_int x = k"
  unfolding py_int_def by (auto simp: floor_eq_iff)

lemma py_int_ge: "real_of_int k \<le> x \<Longrightarrow> k \<le> py_int x"
  unfolding py_int_def by (auto simp: le_floor_iff le_ceiling_iff)

lemma max_py_int_floor: "max 1 (py_int x) = max 1 \<lfloor>x\<rfloor>"
proof (cases "0 \<le> x")
  case True
  then show ?thesis by (simp add: py_int_def)
next
  case False
  then have "\<lceil>x\<rceil> \<le> 0" "\<lfloor>x\<rfloor> \<le> 0"
    by (simp_all add: ceiling_le_iff floor_le_iff)
  with False show ?thesis by (simp add: py_int_def)
qed

lemma log2_power: "log 2 (2 ^ n) = real n"
  by (simp add: log_pow_cancel)

lemma meters_per_pixel_zoom0_pos: "0 < meters_per_pixel_zoom0"
  by (simp add: meters_per_pixel_zoom0_def)

text \<open>Bounds on a binary logarithm from powers of its argument.\<close>

lemma log2_root_lower:
  assumes "0 < x" and "2 ^ n \<le> x ^ k" and "0 < k"
  shows "real n / real k \<le> log 2 x"
proof -
  have "real n = log 2 (2 ^ n)"
    by (simp add: log2_power)
  also have "\<dots> \<le> log 2 (x ^ k)"
    using assms by (intro log_le_cancel_iff[THEN iffD2]) simp_all
  also have "\<dots> = real k * log 2 x"
    using assms(1) by (simp add: log_nat_power)
  finally show ?thesis
    using assms(3) by (simp add: field_simps)
qed

lemma log2_root_upper:
  assumes "0 < x" and "x ^ k \<le> 2 ^ n" and "0 < k"
  shows "log 2 x \<le> real n / real k"
proof -
  have "real k * log 2 x = log 2 (x ^ k)"
    using assms(1) by (simp add: log_nat_power)
  also have "\<dots> \<le> log 2 (2 ^ n)"
    using assms by (intro log_le_cancel_iff[THEN iffD2]) simp_all
  also have "\<dots> = real n"
    by (simp add: log2_power)
  finally show ?thesis
    using assms(3) by (simp add: field_simps)
qed

text \<open>
  On a pixel size that is a number other than zero the estimator is a function of
  the quotient of line 57.
\<close>

lemma calculate_zoom_levels_number:
  "p \<noteq> 0 \<Longrightarrow> calculate_zoom_levels (JNum p) w =
     (let q = meters_per_pixel_zoom0 / \<bar>p\<bar> in
      if overflow_threshold \<le> q then Inl OverflowError
      else if fl q \<le> 0 then Inl ValueError
      else
        let t = py_int (fl (log 2 (fl q)));
            mn = min (max 1 (t - 8)) (min 22 (t + 4));
            mx = max (max 1 (t - 8)) (min 22 (t + 4))
        in if 18 < mn then Inr (10, 22) else Inr (mn, mx))"
proof -
  assume p: "p \<noteq> 0"
  have "0 < meters_per_pixel_zoom0 / \<bar>p\<bar>"
    using p meters_per_pixel_zoom0_pos by simp
  then have "\<not> meters_per_pixel_zoom0 / \<bar>p\<bar> \<le> - overflow_threshold"
    using overflow_threshold_gt by (simp add: not_le)
  then show ?thesis
    using p by (simp add: calculate_zoom_levels_def round_float_def try_bind_def Let_def)
qed

lemma calculate_zoom_levels_exact:
  assumes p: "p \<noteq> 0"
    and q: "meters_per_pixel_zoom0 / \<bar>p\<bar> = 2 powr of_int k"
    and k: "- 1022 \<le> k" "k \<le> 1023"
  shows "calculate_zoom_levels (JNum p) w =
     (if 18 < min (max 1 (k - 8)) (min 22 (k + 4)) then Inr (10, 22)
      else Inr (min (max 1 (k - 8)) (min 22 (k + 4)), max (max 1 (k - 8)) (min 22 (k + 4))))"
proof -
  have f: "fl (2 powr of_int k) = 2 powr of_int k"
    using fl_exact[of 1 k] k by simp
  have "(2::real) powr of_int k \<le> 2 powr 1023"
    using k by (intro powr_mono) simp_all
  then have o: "\<not> overflow_threshold \<le> 2 powr of_int k"
    using overflow_threshold_gt by (simp add: not_le)
  have "\<bar>k\<bar> < 2 ^ 53" using k by simp
  then have l: "fl (of_int k) = of_int k"
    by (rule fl_of_int)
  have lg: "log 2 (2 powr of_int k) = of_int k"
    by simp
  have pos: "\<not> 2 powr real_of_int k \<le> (0::real)"
    by (simp add: not_le)
  show ?thesis
    unfolding calculate_zoom_levels_number[OF p] q Let_def
    by (simp only: f lg l py_int_of_int o pos if_False)
qed

text \<open>The clamping and the swap of lines 61 to 65, for an integer part \<open>t\<close>.\<close>

lemma zoom_pair_range:
  fixes t :: int
  defines "mn \<equiv> min (max 1 (t - 8)) (min 22 (t + 4))"
    and "mx \<equiv> max (max 1 (t - 8)) (min 22 (t + 4))"
  shows "mn \<le> mx" "\<not> 18 < mn \<Longrightarrow> mx \<le> 22" "- 4 < t \<Longrightarrow> 1 \<le> mn" "27 \<le> t \<Longrightarrow> 18 < mn"
  unfolding mn_def mx_def by linarith+

text \<open>
  What the estimator guarantees for a pixel size that is a double other than zero and for
  which the quotient of line 57 is a double too: it returns a pair, the pair is ordered and
  its upper end is at most 22; the lower end is at least 1 as long as the pixel is at most 8
  times the resolution of zoom 0.
\<close>

lemma calculate_zoom_levels_range:
  assumes p: "p \<noteq> 0" "\<bar>p\<bar> < 2 ^ 1024"
    and q: "meters_per_pixel_zoom0 / \<bar>p\<bar> < overflow_threshold"
  shows "\<exists>mn mx. calculate_zoom_levels (JNum p) w = Inr (mn, mx) \<and> mn \<le> mx \<and> mx \<le> 22
           \<and> (\<bar>p\<bar> \<le> 8 * meters_per_pixel_zoom0 \<longrightarrow> 1 \<le> mn)"
proof -
  let ?q = "meters_per_pixel_zoom0 / \<bar>p\<bar>"
  let ?t = "py_int (fl (log 2 (fl ?q)))"
  have "1 / 2 ^ 1022 \<le> 4 / (2 ^ 1024 :: real)"
    by simp
  also have "\<dots> \<le> meters_per_pixel_zoom0 / 2 ^ 1024"
    by (intro divide_right_mono) (simp_all add: meters_per_pixel_zoom0_def)
  also have "\<dots> \<le> ?q"
    using p meters_per_pixel_zoom0_pos by (intro divide_left_mono) simp_all
  finally have "1 / 2 ^ 1022 \<le> fl ?q"
    by (intro fl_ge fl_inverse_power2) simp_all
  moreover have "(0::real) < 1 / 2 ^ 1022"
    by simp
  ultimately have pos: "0 < fl ?q"
    by (rule less_le_trans[rotated])
  have low: "- 4 < ?t" if "\<bar>p\<bar> \<le> 8 * meters_per_pixel_zoom0"
  proof -
    have "1 / 2 ^ 3 \<le> ?q"
      using that p meters_per_pixel_zoom0_pos by (simp add: field_simps)
    then have "1 / 2 ^ 3 \<le> fl ?q"
      by (intro fl_ge fl_inverse_power2) simp_all
    then have "2 powr (- 3) \<le> fl ?q"
      by (simp add: powr_minus_divide)
    then have "- 3 \<le> log 2 (fl ?q)"
      using pos by (simp add: le_log_iff)
    then have "- 3 \<le> fl (log 2 (fl ?q))"
      by (intro fl_ge fl_neg_numeral) simp_all
    then have "- 3 \<le> ?t"
      using py_int_ge[of "- 3"] by simp
    then show ?thesis by simp
  qed
  have c: "calculate_zoom_levels (JNum p) w =
     (if 18 < min (max 1 (?t - 8)) (min 22 (?t + 4)) then Inr (10, 22)
      else Inr (min (max 1 (?t - 8)) (min 22 (?t + 4)), max (max 1 (?t - 8)) (min 22 (?t + 4))))"
    using q pos by (simp only: calculate_zoom_levels_number[OF p(1)] Let_def not_le[symmetric] if_False)
  show ?thesis
  proof (cases "18 < min (max 1 (?t - 8)) (min 22 (?t + 4))")
    case True
    then show ?thesis by (simp only: c if_True) simp
  next
    case False
    let ?mn = "min (max 1 (?t - 8)) (min 22 (?t + 4))"
    let ?mx = "max (max 1 (?t - 8)) (min 22 (?t + 4))"
    have c': "calculate_zoom_levels (JNum p) w = Inr (?mn, ?mx)"
      using False by (simp only: c if_False)
    have "?mn \<le> ?mx" "?mx \<le> 22"
      using zoom_pair_range(1,2)[of ?t] False by blast+
    moreover have "\<bar>p\<bar> \<le> 8 * meters_per_pixel_zoom0 \<longrightarrow> 1 \<le> ?mn"
      using zoom_pair_range(3)[of ?t] low by blast
    ultimately show ?thesis using c' by blast
  qed
qed

text \<open>
  Claim C1 (the estimated pair is ordered and both ends are within 1 and 22, for every
  positive pixel size). The lower end is clamped from below only through
  \<open>calculated_min\<close>; \<open>calculated_max\<close> is clamped from above only. For a pixel of
  1024 times the resolution of zoom 0 the optimal zoom is \<open>-10\<close>, \<open>calculated_max\<close>
  is \<open>-6\<close>, and the pair that is returned is \<open>(-6, 1)\<close>: its lower end is below 1.
\<close>

theorem calculate_zoom_levels_below_one:
  "calculate_zoom_levels (JNum (meters_per_pixel_zoom0 * 1024)) w = Inr (- 6, 1)"
proof -
  have p: "meters_per_pixel_zoom0 * 1024 \<noteq> 0"
    using meters_per_pixel_zoom0_pos by simp
  have "meters_per_pixel_zoom0 / \<bar>meters_per_pixel_zoom0 * 1024\<bar> = 1 / 2 ^ 10"
    using meters_per_pixel_zoom0_pos by (simp add: abs_mult)
  also have "\<dots> = 2 powr of_int (- 10)"
    by (simp add: powr_minus_divide)
  finally show ?thesis
    by (subst calculate_zoom_levels_exact[OF p, of "- 10"]) simp_all
qed

lemma calculate_zoom_levels_sample:
  "calculate_zoom_levels (JNum sample_pixel_size) w = Inr (12, 22)"
proof -
  have p: "sample_pixel_size \<noteq> 0"
    using meters_per_pixel_zoom0_pos by (simp add: sample_pixel_size_def)
  have "meters_per_pixel_zoom0 / \<bar>sample_pixel_size\<bar> = 2 ^ 20"
    using meters_per_pixel_zoom0_pos by (simp add: sample_pixel_size_def)
  also have "\<dots> = 2 powr of_int 20"
    by simp
  finally show ?thesis
    by (subst calculate_zoom_levels_exact[OF p, of 20]) simp_all
qed

lemma fl_meters_scaled:
  "- 1039 \<le> j \<Longrightarrow> fl (meters_per_pixel_zoom0 * 2 powr of_int j) = meters_per_pixel_zoom0 * 2 powr of_int j"
proof -
  assume j: "- 1039 \<le> j"
  have "meters_per_pixel_zoom0 * 2 powr of_int j = of_int 5378777689100435 * 2 powr of_int (j - 35)"
    by (simp add: meters_per_pixel_zoom0_def powr_diff)
  moreover have "fl (of_int 5378777689100435 * 2 powr of_int (j - 35))
                   = of_int 5378777689100435 * 2 powr of_int (j - 35)"
    using j by (intro fl_exact) simp_all
  ultimately show ?thesis by simp
qed

lemma log2_half_bound:
  assumes "0 < x" and "x ^ 2 < 2 ^ n"
  shows "log 2 x < real n / 2"
proof -
  have "2 * log 2 x = log 2 (x ^ 2)"
    using assms(1) by (simp add: log_nat_power)
  also have "\<dots> < log 2 (2 ^ n)"
    using assms by (intro log_less_cancel_iff[THEN iffD2]) simp_all
  also have "\<dots> = real n"
    by (rule log2_power)
  finally show ?thesis by simp
qed

lemma quotient_512:
  "meters_per_pixel_zoom0 / \<bar>1 / 512\<bar> = meters_per_pixel_zoom0 * 2 powr of_int 9"
  by simp

lemma optimal_zoom_512:
  "26 < log 2 (meters_per_pixel_zoom0 * 2 powr of_int 9)"
  "log 2 (meters_per_pixel_zoom0 * 2 powr of_int 9) < 53 / 2"
proof -
  let ?q = "meters_per_pixel_zoom0 * 2 powr of_int 9"
  have q: "?q = 5378777689100435 / 2 ^ 26"
    by (simp add: meters_per_pixel_zoom0_def)
  have "2 powr 26 < ?q"
    unfolding q by simp
  then show "26 < log 2 ?q"
    using meters_per_pixel_zoom0_pos by (simp add: less_log_iff)
  have "?q ^ 2 < 2 ^ 53"
    unfolding q by (simp add: power2_eq_square)
  from log2_half_bound[OF _ this] show "log 2 ?q < 53 / 2"
    using meters_per_pixel_zoom0_pos by simp
qed

text \<open>
  Claim C2, as stated (an optimal zoom above 26 gives the fallback pair \<open>(10, 22)\<close>),
  fails between 26 and 27: there the integer part is 26, the lower end is 18, and the test
  \<open>min_zoom > 18\<close> is false. A pixel of \<open>1 / 512\<close> has an optimal zoom of about 26.26
  and gets \<open>(18, 22)\<close>. The claim fails also for a pixel so small that the quotient of
  line 57 is out of the range of a double, such as \<open>1 / 2 ^ 1060\<close>: the quotient is
  infinity, so is its logarithm, and \<^verbatim>\<open>int\<close> raises an \<^verbatim>\<open>OverflowError\<close> on line 60.
\<close>

theorem fallback_above_26_counterexample:
  "26 < log 2 (meters_per_pixel_zoom0 / \<bar>1 / 512\<bar>)
   \<and> calculate_zoom_levels (JNum (1 / 512)) (JNum 1024) = Inr (18, 22)
   \<and> calculate_zoom_levels (JNum (1 / 512)) (JNum 1024) \<noteq> Inr (10, 22)
   \<and> 26 < log 2 (meters_per_pixel_zoom0 / \<bar>1 / 2 ^ 1060\<bar>)
   \<and> calculate_zoom_levels (JNum (1 / 2 ^ 1060)) (JNum 1024) = Inl OverflowError"
proof -
  let ?q = "meters_per_pixel_zoom0 * 2 powr of_int 9"
  have f: "fl ?q = ?q"
    by (rule fl_meters_scaled) simp
  have "fl (53 / 2) = 53 / (2::real)"
    using fl_exact[of 53 "- 1"] by (simp add: powr_minus_divide)
  then have "fl (log 2 ?q) \<le> 53 / 2"
    using optimal_zoom_512(2) by (intro fl_le) simp_all
  moreover have "26 \<le> fl (log 2 ?q)"
    using optimal_zoom_512(1) by (intro fl_ge fl_numeral) simp_all
  ultimately have t: "py_int (fl (log 2 ?q)) = 26"
    by (intro py_int_bounds) simp_all
  have "?q < 2 ^ 1023"
    by (simp add: meters_per_pixel_zoom0_def)
  then have o: "\<not> overflow_threshold \<le> ?q"
    using overflow_threshold_gt by simp
  have pos: "\<not> ?q \<le> 0"
    using meters_per_pixel_zoom0_pos by (simp add: not_le)
  have a: "calculate_zoom_levels (JNum (1 / 512)) (JNum 1024) = Inr (18, 22)"
    by (subst calculate_zoom_levels_number, simp)
       (simp only: quotient_512 Let_def f t o pos if_False, simp)
  have "overflow_threshold \<le> 1 * 2 ^ 1060"
    by (simp add: overflow_threshold_def)
  also have "\<dots> \<le> meters_per_pixel_zoom0 * 2 ^ 1060"
    by (intro mult_right_mono) (simp_all add: meters_per_pixel_zoom0_def)
  finally have big: "overflow_threshold \<le> meters_per_pixel_zoom0 / \<bar>1 / 2 ^ 1060\<bar>"
    by simp
  then have b: "calculate_zoom_levels (JNum (1 / 2 ^ 1060)) (JNum 1024) = Inl OverflowError"
    by (subst calculate_zoom_levels_number, simp) (simp only: Let_def if_True)
  have "2 powr 26 < overflow_threshold"
    by (simp add: overflow_threshold_def)
  from this big have "2 powr 26 < meters_per_pixel_zoom0 / \<bar>1 / 2 ^ 1060\<bar>"
    by (rule less_le_trans)
  then have c: "26 < log 2 (meters_per_pixel_zoom0 / \<bar>1 / 2 ^ 1060\<bar>)"
    using meters_per_pixel_zoom0_pos by (subst less_log_iff) simp_all
  have d: "26 < log 2 (meters_per_pixel_zoom0 / \<bar>1 / 512\<bar>)"
    using optimal_zoom_512(1) by (simp only: quotient_512)
  have e: "calculate_zoom_levels (JNum (1 / 512)) (JNum 1024) \<noteq> Inr (10, 22)"
    unfolding a by simp
  show ?thesis
    using a b c d e by blast
qed

text \<open>
  Claim C2, amended: for every pixel size whose optimal zoom is at least 27, and for which
  the quotient of line 57 is in the range of a double, the estimator returns exactly the
  fallback pair \<open>(10, 22)\<close>.
\<close>

theorem fallback_from_27:
  assumes z: "27 \<le> log 2 (meters_per_pixel_zoom0 / \<bar>p\<bar>)"
    and o: "meters_per_pixel_zoom0 / \<bar>p\<bar> < overflow_threshold"
  shows "calculate_zoom_levels (JNum p) w = Inr (10, 22)"
proof -
  let ?q = "meters_per_pixel_zoom0 / \<bar>p\<bar>"
  let ?t = "py_int (fl (log 2 (fl ?q)))"
  have p: "p \<noteq> 0"
    using z by (auto simp: log_def)
  have q: "0 < ?q"
    using p meters_per_pixel_zoom0_pos by simp
  have "2 powr 27 \<le> ?q"
    using z q by (simp add: le_log_iff)
  then have "2 ^ 27 \<le> fl ?q"
    by (intro fl_ge fl_power2) simp_all
  then have f: "2 powr 27 \<le> fl ?q"
    by simp
  moreover have "(0::real) < 2 powr 27"
    by simp
  ultimately have pos: "0 < fl ?q"
    by (rule less_le_trans[rotated])
  from f pos have "27 \<le> log 2 (fl ?q)"
    by (simp add: le_log_iff)
  then have "27 \<le> fl (log 2 (fl ?q))"
    by (intro fl_ge fl_numeral) simp_all
  then have "27 \<le> ?t"
    using py_int_ge[of 27] by simp
  then have m: "18 < min (max 1 (?t - 8)) (min 22 (?t + 4))"
    by (rule zoom_pair_range(4))
  have c: "calculate_zoom_levels (JNum p) w =
     (if 18 < min (max 1 (?t - 8)) (min 22 (?t + 4)) then Inr (10, 22)
      else Inr (min (max 1 (?t - 8)) (min 22 (?t + 4)), max (max 1 (?t - 8)) (min 22 (?t + 4))))"
    using o pos by (simp only: calculate_zoom_levels_number[OF p] Let_def not_le[symmetric] if_False)
  show ?thesis
    using m by (simp only: c if_True)
qed

theorem fallback_from_27_witness:
  "27 \<le> log 2 (meters_per_pixel_zoom0 / \<bar>1 / 1024\<bar>)
   \<and> meters_per_pixel_zoom0 / \<bar>1 / 1024\<bar> < overflow_threshold
   \<and> calculate_zoom_levels (JNum (1 / 1024)) (JNum 1024) = Inr (10, 22)"
proof -
  have q: "meters_per_pixel_zoom0 / \<bar>1 / 1024\<bar> = 5378777689100435 / 2 ^ 25"
    by (simp add: meters_per_pixel_zoom0_def)
  have "2 powr 27 \<le> (5378777689100435 / 2 ^ 25 :: real)"
    by simp
  then have h1: "27 \<le> log 2 (meters_per_pixel_zoom0 / \<bar>1 / 1024\<bar>)"
    unfolding q by (subst le_log_iff) simp_all
  have "(5378777689100435 / 2 ^ 25 :: real) < 2 ^ 1023"
    by simp
  then have h2: "meters_per_pixel_zoom0 / \<bar>1 / 1024\<bar> < overflow_threshold"
    unfolding q using overflow_threshold_gt by (rule less_trans)
  show ?thesis
    using h1 h2 fallback_from_27 [OF h1 h2, of "JNum 1024"] by simp
qed

subsection \<open>Arithmetic of the initial zoom\<close>

text \<open>
  Lines 135 to 137: when the larger of the two rounded differences is positive and far
  from the largest double, it is the value of \<^verbatim>\<open>max_range\<close>, whatever the other one is.
\<close>

lemma max_range_finite:
  assumes r: "r = max (fl (n - s)) (fl (e - w))"
    and pos: "0 < r"
    and fin: "r * 10 < overflow_threshold"
  shows "max_range (w, e, s, n) = Finite r"
proof -
  have small: "x < overflow_threshold" if "fl x \<le> r" for x
  proof (rule ccontr)
    assume "\<not> x < overflow_threshold"
    then have "2 ^ 1023 \<le> fl x"
      by (intro round_float_overflow) simp
    then have "2 ^ 1023 \<le> r"
      using that by simp
    then have "2 ^ 1024 \<le> r * 10"
      by simp
    then show False
      using fin overflow_threshold_lt by simp
  qed
  have a: "n - s < overflow_threshold" and b: "e - w < overflow_threshold"
    using small r by simp_all
  have neg: "fl x \<le> 0" if "x \<le> - overflow_threshold" for x
    using that overflow_threshold_pos by (intro fl_nonpos) simp
  show ?thesis
  proof (cases "n - s \<le> - overflow_threshold")
    case True
    then have "fl (n - s) \<le> 0" by (rule neg)
    then have rb: "r = fl (e - w)" and "0 < fl (e - w)"
      using r pos by (simp_all add: max_def split: if_splits)
    then have "\<not> e - w \<le> - overflow_threshold"
      using neg[of "e - w"] by auto
    then show ?thesis
      using True a b rb
      by (simp add: max_range_def round_float_cases float_max_def not_le[symmetric])
  next
    case False
    note na = this
    show ?thesis
    proof (cases "e - w \<le> - overflow_threshold")
      case True
      then have "fl (e - w) \<le> 0" by (rule neg)
      then have "r = fl (n - s)"
        using r pos by (simp add: max_def split: if_splits)
      then show ?thesis
        using True na a b
        by (simp add: max_range_def round_float_cases float_max_def not_le[symmetric])
    next
      case False
      then show ?thesis
        using na a b r
        by (simp add: max_range_def round_float_cases float_max_def not_le[symmetric] max_def)
    qed
  qed
qed

text \<open>
  Line 140 for such an extent: the product, the logarithm and the difference are finite,
  and \<^verbatim>\<open>int\<close> under the maximum with 1 is the floor.
\<close>

lemma initial_zoom_finite:
  assumes m: "max_range ob = Finite r"
    and low: "2 powr (- 1074) \<le> r"
    and fin: "r * 10 < overflow_threshold"
  shows "initial_zoom ob = Inr (max 1 \<lfloor>fl (10 - fl (log 2 (fl (r * 10))))\<rfloor>)"
proof -
  let ?x = "fl (r * 10)"
  let ?l = "fl (log 2 ?x)"
  have tiny: "(0::real) < 2 powr (- 1074)"
    by simp
  have r: "0 < r"
    using tiny low by (rule less_le_trans)
  have "2 powr (- 1074) \<le> r * 10"
    using low r by simp
  then have x1: "2 powr (- 1074) \<le> ?x"
    by (intro fl_ge fl_smallest)
  have x: "0 < ?x"
    using tiny x1 by (rule less_le_trans)
  have "r * 10 \<le> 2 powr 1024"
    using fin overflow_threshold_lt by simp
  moreover have "fl (2 powr 1024) = 2 powr 1024"
    using fl_exact[of 1 1024] by simp
  ultimately have x2: "?x \<le> 2 powr 1024"
    by (intro fl_le)
  have "- 1074 \<le> log 2 ?x"
    using x1 x by (simp add: le_log_iff)
  then have l1: "- 1074 \<le> ?l"
    by (intro fl_ge fl_neg_numeral) simp_all
  have "log 2 ?x \<le> 1024"
    using x2 x by (simp add: log_le_iff)
  then have l2: "?l \<le> 1024"
    by (intro fl_le fl_numeral) simp_all
  have "(1084::real) < 2 ^ 1023"
    by simp
  then have "\<bar>10 - ?l\<bar> < overflow_threshold"
    using l1 l2 overflow_threshold_gt by linarith
  then have d: "round_float (10 - ?l) = Finite (fl (10 - ?l))"
    by (rule round_float_finite)
  have "\<bar>r * 10\<bar> < overflow_threshold"
    using fin r by simp
  then have p: "round_float (r * 10) = Finite ?x"
    by (rule round_float_finite)
  show ?thesis
    using x by (simp add: initial_zoom_def m p d try_bind_def max_py_int_floor not_le[symmetric])
qed

text \<open>
  The arithmetic of the sample layers: an extent of 5 degrees, for which
  \<open>10 - log2 50\<close> is between 4.25 and 4.5; one of 300 degrees, for which \<open>10 - log2 3000\<close>
  is between -1.75 and -1.5; one of 0.8 degrees; and one of \<open>2 ^ 1023\<close>.
\<close>

lemma initial_zoom_three_layers:
  "\<lfloor>fl (10 - fl (log 2 (fl (5 * 10))))\<rfloor> = 4"
proof -
  have x: "fl (5 * 10) = 50"
    using fl_of_int[of 50] by simp
  have a: "real_of_int 22 / 4 \<le> log 2 50"
    using log2_root_lower[of 50 11 2] by simp
  have b: "log 2 50 \<le> real_of_int 23 / 4"
    using log2_root_upper[of 50 4 23] by simp
  note l = fl_quarters_between[OF a b, simplified]
  have c: "real_of_int 17 / 4 \<le> 10 - fl (log 2 50)"
    using l by simp
  have d: "10 - fl (log 2 50) \<le> real_of_int 18 / 4"
    using l by simp
  note z = fl_quarters_between[OF c d, simplified]
  show ?thesis
    unfolding x using z by (simp add: floor_eq_iff)
qed

lemma initial_zoom_wide_layer:
  "\<lfloor>fl (10 - fl (log 2 (fl (300 * 10))))\<rfloor> = - 2"
  "py_int (fl (10 - fl (log 2 (fl (300 * 10))))) = - 1"
proof -
  have x: "fl (300 * 10) = 3000"
    using fl_of_int[of 3000] by simp
  have a: "real_of_int 46 / 4 \<le> log 2 3000"
    using log2_root_lower[of 3000 23 2] by simp
  have b: "log 2 3000 \<le> real_of_int 47 / 4"
    using log2_root_upper[of 3000 4 47] by simp
  note l = fl_quarters_between[OF a b, simplified]
  have c: "real_of_int (- 7) / 4 \<le> 10 - fl (log 2 3000)"
    using l by simp
  have d: "10 - fl (log 2 3000) \<le> real_of_int (- 6) / 4"
    using l by simp
  note z = fl_quarters_between[OF c d, simplified]
  show "\<lfloor>fl (10 - fl (log 2 (fl (300 * 10))))\<rfloor> = - 2"
    unfolding x using z by (simp add: floor_eq_iff)
  show "py_int (fl (10 - fl (log 2 (fl (300 * 10))))) = - 1"
    unfolding x using z by (simp add: py_int_def ceiling_eq_iff)
qed

lemma fl_double_0_8_times_10: "fl (double_0_8 * 10) = 8"
proof -
  let ?x = "double_0_8 * 10"
  have v: "?x = 8 + 1 / 2 ^ 51"
    by (simp add: double_0_8_def)
  have "\<lfloor>log 2 ?x\<rfloor> = 3"
  proof -
    have "2 powr 3 \<le> ?x" "?x < 2 powr 4"
      unfolding v by simp_all
    then have "3 \<le> log 2 ?x" "log 2 ?x < 4"
      unfolding v by (simp_all add: le_log_iff log_less_iff)
    then show ?thesis
      by (simp add: floor_eq_iff)
  qed
  then have "binade ?x = 3"
    unfolding v by (simp add: binade_def)
  then have u: "ulp ?x = 1 / 2 ^ 49"
    by (simp add: ulp_def powr_minus_divide)
  have "?x / ulp ?x = of_int (2 ^ 52) + 1 / 4"
    unfolding u unfolding v by simp
  then have "round_half_even (?x / ulp ?x) = 2 ^ 52"
    by (simp only: round_half_even_quarter)
  then show ?thesis
    unfolding fl_def u unfolding v by simp
qed

lemma initial_zoom_square_layer:
  "initial_zoom (0, double_0_8, 0, double_0_8) = Inr 7"
  "max 1 \<lfloor>10 - log 2 (max (double_0_8 - 0) (double_0_8 - 0) * 10)\<rfloor> = 6"
proof -
  have d: "fl double_0_8 = double_0_8"
    using fl_exact[of 3602879701896397 "- 52"] by (simp add: double_0_8_def powr_minus_divide)
  have "max_range (0, double_0_8, 0, double_0_8) = Finite double_0_8"
    by (intro max_range_finite) (simp_all add: d, simp_all add: double_0_8_def overflow_threshold_def)
  moreover have "2 powr (- 1074) \<le> double_0_8"
    by (simp add: double_0_8_def powr_minus_divide)
  moreover have "double_0_8 * 10 < overflow_threshold"
    by (simp add: double_0_8_def overflow_threshold_def)
  ultimately have "initial_zoom (0, double_0_8, 0, double_0_8)
      = Inr (max 1 \<lfloor>fl (10 - fl (log 2 (fl (double_0_8 * 10))))\<rfloor>)"
    by (rule initial_zoom_finite)
  moreover have "log 2 8 = (3::real)"
    using log2_power[of 3] by simp
  moreover have "fl 3 = 3" "fl 7 = 7"
    using fl_of_int[of 3] fl_of_int[of 7] by simp_all
  ultimately show "initial_zoom (0, double_0_8, 0, double_0_8) = Inr 7"
    by (simp add: fl_double_0_8_times_10)
  let ?x = "double_0_8 * 10"
  have v: "?x = 8 + 1 / 2 ^ 51"
    by (simp add: double_0_8_def)
  have "2 powr 3 < ?x" "?x \<le> 2 powr 4"
    unfolding v by simp_all
  then have "3 < log 2 ?x" "log 2 ?x \<le> 4"
    unfolding v by (simp_all add: less_log_iff log_le_iff)
  then have "\<lfloor>10 - log 2 ?x\<rfloor> = 6"
    by (simp add: floor_eq_iff)
  then show "max 1 \<lfloor>10 - log 2 (max (double_0_8 - 0) (double_0_8 - 0) * 10)\<rfloor> = 6"
    by simp
qed

lemma huge_extent_facts:
  "1 \<le> huge_extent" "fl huge_extent = huge_extent" "\<bar>huge_extent\<bar> < overflow_threshold"
  "overflow_threshold \<le> huge_extent * 10"
  using fl_power2[of 1023] overflow_threshold_gt
  by (simp_all add: huge_extent_def overflow_threshold_def)

lemma initial_zoom_huge_layer:
  "initial_zoom (0, 1, 0, huge_extent) = Inl OverflowError"
proof -
  have "round_float (huge_extent - 0) = Finite huge_extent"
    using round_float_finite[OF huge_extent_facts(3)] huge_extent_facts(2) by simp
  moreover have "round_float (1 - 0) = Finite 1"
    using round_float_finite[of 1] overflow_threshold_gt by simp
  ultimately have "max_range (0, 1, 0, huge_extent) = Finite huge_extent"
    using huge_extent_facts(1) by (simp add: max_range_def float_max_def)
  moreover have "round_float (huge_extent * 10) = PInf"
    using huge_extent_facts(4) by (simp add: round_float_def)
  ultimately show ?thesis
    by (simp add: initial_zoom_def try_bind_def)
qed

text \<open>
  Line 140 on overall bounds whose largest extent \<open>r\<close>, as the script computes it, is
  positive and can be multiplied by 10 without leaving the range of a double.
\<close>

lemma initial_zoom_formula:
  assumes r: "r = max (fl (n - s)) (fl (e - w))"
    and pos: "0 < r"
    and fin: "r * 10 < overflow_threshold"
  shows "initial_zoom (w, e, s, n) = Inr (max 1 \<lfloor>fl (10 - fl (log 2 (fl (r * 10))))\<rfloor>)"
proof -
  have "r = fl (n - s) \<or> r = fl (e - w)"
    using r by (auto simp: max_def)
  then have "2 powr (- 1074) \<le> r"
    using pos fl_pos_ge by auto
  with max_range_finite[OF r pos fin] show ?thesis
    using fin by (intro initial_zoom_finite)
qed

subsection \<open>Evaluating the text functions and the sample document\<close>

lemma str_nat_digit: "n < 10 \<Longrightarrow> str_nat n = [digit n]"
  by (subst str_nat.simps) simp

lemma str_nat_step: "10 \<le> n \<Longrightarrow> str_nat n = str_nat (n div 10) @ [digit (n mod 10)]"
  by (subst str_nat.simps) simp

lemma replicate_5: "replicate 5 x = [x, x, x, x, x]"
  by (simp add: numeral_eq_Suc)

lemma format_6f_1: "format_6f 1 = ''1.000000''"
  by (simp add: format_6f_def round_half_even_def Let_def str_nat_digit digit_def replicate_5)

lemma format_6f_half: "format_6f (1 / 2) = ''0.500000''"
  by (simp add: format_6f_def round_half_even_def Let_def str_nat_digit str_nat_step digit_def)

lemma str_int_12_22: "str_int 12 = ''12''" "str_int 22 = ''22''"
  by (simp_all add: str_int_def str_nat_digit str_nat_step digit_def)

lemma sample_stems: "stem ''a.tif'' = ''a''" "stem ''a.tiff'' = ''a''" "stem ''b.tif'' = ''b''"
  by (simp_all add: stem_def)

lemma sample_paths: "path_join ''/p'' ''orthos'' = ''/p/orthos''" "path_join ''/p'' ''tiles'' = ''/p/tiles''"
  "path_join ''/p/orthos'' ''a.tif'' = ''/p/orthos/a.tif''"
  "path_join ''/p/orthos'' ''a.tiff'' = ''/p/orthos/a.tiff''"
  "path_join ''/p/orthos'' ''b.tif'' = ''/p/orthos/b.tif''"
  "path_join ''/p/tiles'' ''a'' = ''/p/tiles/a''"
  "path_join ''/p/tiles'' ''b'' = ''/p/tiles/b''"
  by (simp_all add: path_join_def)

lemma sample_globs:
  "endswith ''a.tif'' ''.tif''" "\<not> endswith ''a.tif'' ''.tiff''"
  "endswith ''a.tiff'' ''.tiff''" "\<not> endswith ''a.tiff'' ''.tif''"
  "endswith ''b.tif'' ''.tif''" "\<not> endswith ''b.tif'' ''.tiff''"
  by (simp_all add: endswith_def)

lemma read_info_sample:
  "read_info (sample_info w s e n) =
     Inr (\<lparr>west = JNum w, south = JNum s, east = JNum e, north = JNum n\<rparr>,
          JArr [JNum 1024, JNum 1024], JNum sample_pixel_size)"
  by (simp add: read_info_def sample_info_def try_bind_def)

subsection \<open>Effects only extend the trace\<close>

text \<open>
  No function reads the trace: each returns the result it returns from the empty trace,
  and appends the events it appends to the empty trace.
\<close>

lemma get_geotiff_info_frame:
  "get_geotiff_info env p tr =
     (fst (get_geotiff_info env p []), tr @ snd (get_geotiff_info env p []))"
  by (simp add: get_geotiff_info_def Let_def split: sum.splits option.splits)

lemma generate_tiles_frame:
  "generate_tiles env p od n tr =
     (fst (generate_tiles env p od n []), tr @ snd (generate_tiles env p od n []))"
proof -
  obtain r t where g: "get_geotiff_info env p [] = (r, t)"
    by (cases "get_geotiff_info env p []")
  have g': "get_geotiff_info env p X = (r, X @ t)" for X
    using get_geotiff_info_frame[of env p X] g by simp
  show ?thesis
    unfolding generate_tiles_def g'
    by (simp add: Let_def split: sum.splits option.splits prod.splits)
qed

lemma process_files_frame:
  "process_files env gd td fs c tr =
     (fst (process_files env gd td fs c []), tr @ snd (process_files env gd td fs c []))"
proof (induction fs arbitrary: c tr)
  case Nil
  show ?case by simp
next
  case (Cons f fs)
  obtain r t where g: "generate_tiles env (path_join gd f) td (stem f) [] = (r, t)"
    by (cases "generate_tiles env (path_join gd f) td (stem f) []")
  have g': "generate_tiles env (path_join gd f) td (stem f) tr = (r, tr @ t)"
    using generate_tiles_frame[of env "path_join gd f" td "stem f" tr] g by simp
  show ?case
  proof (cases r)
    case (Inl e)
    with g g' show ?thesis by simp
  next
    case (Inr x)
    obtain b mn mx where x: "x = (b, mn, mx)" by (cases x)
    show ?thesis
      using g g' Inr x Cons.IH[of _ "tr @ t"] Cons.IH[of _ t]
      by simp
  qed
qed

lemma process_files_append:
  "process_files env gd td (xs @ ys) c tr =
     (case process_files env gd td xs c tr of
        (Inl e, t) \<Rightarrow> (Inl e, t)
      | (Inr c', t) \<Rightarrow> process_files env gd td ys c' t)"
  by (induction xs arbitrary: c tr) (auto split: sum.splits prod.splits)

lemma update_map_config_frame:
  "update_map_config cfgs d tr =
     (fst (update_map_config cfgs d []), tr @ snd (update_map_config cfgs d []))"
  by (simp add: update_map_config_def Let_def split: sum.splits)

lemma check_gdal_frame:
  "check_gdal env tr = (fst (check_gdal env []), tr @ snd (check_gdal env []))"
  by (simp add: check_gdal_def Let_def split: sum.splits)

lemma generate_tiles_result:
  "fst (generate_tiles env p od n tr) = fst (generate_tiles env p od n [])"
  by (subst generate_tiles_frame) simp

lemma process_files_result:
  "fst (process_files env gd td fs c tr) = fst (process_files env gd td fs c [])"
  by (subst process_files_frame) simp

lemma written_append:
  "written p (tr @ es) = (case written p es of Some c \<Rightarrow> Some c | None \<Rightarrow> written p tr)"
  by (induction tr) (auto split: option.splits event.splits)

text \<open>Only \<^verbatim>\<open>update_map_config\<close> writes a file.\<close>

lemma check_gdal_no_write: "Write p c \<notin> set (snd (check_gdal env []))"
  by (simp add: check_gdal_def Let_def split: sum.splits)

lemma get_geotiff_info_no_write: "Write p c \<notin> set (snd (get_geotiff_info env q []))"
  by (simp add: get_geotiff_info_def Let_def split: sum.splits option.splits)

lemma generate_tiles_no_write: "Write p c \<notin> set (snd (generate_tiles env q od n []))"
proof -
  obtain r t where g: "get_geotiff_info env q [] = (r, t)"
    by (cases "get_geotiff_info env q []")
  have g': "get_geotiff_info env q X = (r, X @ t)" for X
    using get_geotiff_info_frame[of env q X] g by simp
  have "Write p c \<notin> set t"
    using get_geotiff_info_no_write[of p c env q] g by simp
  then show ?thesis
    unfolding generate_tiles_def g'
    by (simp add: Let_def split: sum.splits option.splits prod.splits)
qed

lemma process_files_no_write:
  "Write p c \<notin> set (snd (process_files env gd td fs cfgs []))"
proof (induction fs arbitrary: cfgs)
  case Nil
  show ?case by simp
next
  case (Cons f fs)
  obtain r t where g: "generate_tiles env (path_join gd f) td (stem f) [] = (r, t)"
    by (cases "generate_tiles env (path_join gd f) td (stem f) []")
  have t: "Write p c \<notin> set t"
    using generate_tiles_no_write[of p c env "path_join gd f" td "stem f"] g by simp
  show ?case
  proof (cases r)
    case (Inl e)
    with g t show ?thesis by simp
  next
    case (Inr x)
    obtain b mn mx where x: "x = (b, mn, mx)" by (cases x)
    show ?thesis
      using g t Inr x Cons.IH process_files_frame[of env gd td fs _ t]
      by simp
  qed
qed

subsection \<open>The configuration\<close>

lemma all_bounds_Nil [simp]: "all_bounds [] = []"
  by (simp add: all_bounds_def List.map_filter_simps)

lemma all_bounds_Cons:
  "all_bounds ((n, c) # cfgs) = (case bounds c of None \<Rightarrow> all_bounds cfgs | Some b \<Rightarrow> b # all_bounds cfgs)"
  by (simp add: all_bounds_def List.map_filter_simps split: option.splits)

lemma all_bounds_Nil_iff: "all_bounds cfgs = [] \<longleftrightarrow> (\<forall>(name, c) \<in> set cfgs. bounds c = None)"
  by (induction cfgs) (auto simp: all_bounds_def List.map_filter_simps split: option.splits)

lemma overall_bounds_numeric:
  "overall_bounds bs = Inr ob \<Longrightarrow> \<exists>qs. numeric_all bs = Inr qs"
  by (auto simp: overall_bounds_def try_bind_def split: sum.splits)

lemma layer_entries_numeric:
  "numeric_all (all_bounds cfgs) = Inr qs \<Longrightarrow> \<exists>s. layer_entries cfgs = Inr s"
proof (induction cfgs arbitrary: qs)
  case Nil
  show ?case by simp
next
  case (Cons a cfgs)
  obtain n c where a: "a = (n, c)" by (cases a)
  show ?case
  proof (cases "bounds c")
    case None
    with Cons a show ?thesis
      by (auto simp: all_bounds_Cons layer_entry_def try_bind_def)
  next
    case (Some b)
    with Cons.prems a obtain q qs' where q: "numeric_bounds b = Some q" "numeric_all (all_bounds cfgs) = Inr qs'"
      by (auto simp: all_bounds_Cons try_bind_def split: option.splits sum.splits)
    from Cons.IH[OF q(2)] obtain s where "layer_entries cfgs = Inr s" by blast
    with Some a q show ?thesis
      by (cases q) (auto simp: layer_entry_def try_bind_def)
  qed
qed

lemma update_map_config_no_bounds:
  "all_bounds cfgs = [] \<Longrightarrow>
     update_map_config cfgs d tr = (Inr (), tr @ [Print No_valid_ortho_bounds_found])"
  by (simp add: update_map_config_def)

lemma update_map_config_writes:
  assumes "all_bounds cfgs \<noteq> []"
    and "overall_bounds (all_bounds cfgs) = Inr ob"
    and "initial_zoom ob = Inr z"
  shows "\<exists>entries. layer_entries cfgs = Inr entries \<and>
     update_map_config cfgs d tr =
       (Inr (),
        tr @ [Write (path_join (path_join (path_join d ''web'') ''js'') ''map.js'')
                (config_head (format_float (fst (center ob))) (format_float (snd (center ob))) z
                   (overall_min_zoom cfgs) (overall_max_zoom cfgs) @ entries @ config_tail),
              Print Updated_map_configuration,
              Print (Center (format_float (fst (center ob))) (format_float (snd (center ob)))),
              Print (Initial_zoom z),
              Print (Zoom_range (overall_min_zoom cfgs) (overall_max_zoom cfgs))])"
proof -
  obtain qs where "numeric_all (all_bounds cfgs) = Inr qs"
    using overall_bounds_numeric[OF assms(2)] by blast
  then obtain s where s: "layer_entries cfgs = Inr s"
    using layer_entries_numeric by blast
  show ?thesis
    using assms s by (simp add: update_map_config_def Let_def)
qed

lemma update_map_config_raises:
  assumes "all_bounds cfgs \<noteq> []"
    and "overall_bounds (all_bounds cfgs) = Inr ob"
    and "initial_zoom ob = Inl x"
  shows "update_map_config cfgs d tr = (Inl x, tr)"
  using assms by (simp add: update_map_config_def)

text \<open>
  The formula of line 140 is that of the doubles, not of the real numbers. For a layer of
  0.8 by 0.8 degrees, 0.8 being the double of that name, the product \<open>max_range * 10\<close> is
  a little more than 8 and its logarithm more than 3, so that over the reals the formula
  gives 6; the script rounds the product to 8 and reports the zoom 7.
\<close>

lemma initial_zoom_rounds_product:
  "all_bounds square_layer \<noteq> []"
  "overall_bounds (all_bounds square_layer) = Inr (0, double_0_8, 0, double_0_8)"
  "max 1 \<lfloor>10 - log 2 (max (double_0_8 - 0) (double_0_8 - 0) * 10)\<rfloor> = 6"
  "initial_zoom (0, double_0_8, 0, double_0_8) = Inr 7"
  "Print (Initial_zoom 7) \<in> set (snd (update_map_config square_layer ''/p'' []))"
proof -
  show s1: "all_bounds square_layer \<noteq> []"
    by (simp add: square_layer_def all_bounds_Cons)
  show s2: "overall_bounds (all_bounds square_layer) = Inr (0, double_0_8, 0, double_0_8)"
    by (simp add: square_layer_def all_bounds_Cons overall_bounds_def numeric_bounds_def
          try_bind_def)
  show "max 1 \<lfloor>10 - log 2 (max (double_0_8 - 0) (double_0_8 - 0) * 10)\<rfloor> = 6"
    by (rule initial_zoom_square_layer(2))
  show "initial_zoom (0, double_0_8, 0, double_0_8) = Inr 7"
    by (rule initial_zoom_square_layer(1))
  show "Print (Initial_zoom 7) \<in> set (snd (update_map_config square_layer ''/p'' []))"
    using update_map_config_writes[OF s1 s2 initial_zoom_square_layer(1), of "''/p''" "[]"]
    by auto
qed

text \<open>
  Claim C6, as stated (for every set of layers with a positive largest extent the initial
  zoom is \<open>max(1, floor(10 - log2(maxRange * 10)))\<close>), fails for an extent that is too
  large to be multiplied by 10. For a layer \<open>2 ^ 1023\<close> high and 1 wide the largest extent
  is \<open>2 ^ 1023\<close>, the product \<open>max_range * 10\<close> is infinity, so are its logarithm and the
  difference from 10, and \<^verbatim>\<open>int\<close> raises an \<^verbatim>\<open>OverflowError\<close> on line 140: no zoom is
  computed and nothing is written or printed.
\<close>

theorem initial_zoom_overflow_counterexample:
  "all_bounds huge_layer \<noteq> []
   \<and> overall_bounds (all_bounds huge_layer) = Inr (0, 1, 0, huge_extent)
   \<and> 0 < max (huge_extent - 0) (1 - 0)
   \<and> initial_zoom (0, 1, 0, huge_extent) = Inl OverflowError
   \<and> update_map_config huge_layer ''/p'' [] = (Inl OverflowError, [])"
proof -
  have h1: "all_bounds huge_layer \<noteq> []"
    by (simp add: huge_layer_def all_bounds_Cons)
  have h2: "overall_bounds (all_bounds huge_layer) = Inr (0, 1, 0, huge_extent)"
    by (simp add: huge_layer_def all_bounds_Cons overall_bounds_def numeric_bounds_def
          try_bind_def)
  have h3: "0 < max (huge_extent - 0) (1 - 0)"
    using huge_extent_facts(1) by simp
  have h4: "update_map_config huge_layer ''/p'' [] = (Inl OverflowError, [])"
    using h1 h2 initial_zoom_huge_layer by (rule update_map_config_raises)
  show ?thesis
    using h1 h2 h3 h4 initial_zoom_huge_layer by blast
qed

text \<open>
  Claim C6, amended: for every set of layers of which at least one has bounds, all of them
  numbers, let \<open>r\<close> be the largest extent \<open>max (north - south) (east - west)\<close> of the overall
  bounds, each difference rounded to a double. If \<open>r\<close> is positive and \<open>r * 10\<close> is in the
  range of a double, then the initial zoom that \<^verbatim>\<open>update_map_config\<close> computes, writes into
  the configuration and prints is \<open>max 1 \<lfloor>10 - log2 (r * 10)\<rfloor>\<close> with the product, the
  logarithm and the difference each rounded to a double. The floor stands where the
  script truncates with \<^verbatim>\<open>int\<close>: the two differ only below zero, where the maximum with 1
  hides the difference. The sample runs are the three layers of the example (extents 4 and
  5, zoom 4) and a layer of 300 by 90 degrees, for which \<^verbatim>\<open>int\<close> gives \<open>-1\<close>, the floor
  \<open>-2\<close> and both the zoom 1.
\<close>

theorem initial_zoom_is_floor:
  assumes "all_bounds cfgs \<noteq> []"
    and "overall_bounds (all_bounds cfgs) = Inr (w, e, s, n)"
    and "r = max (fl (n - s)) (fl (e - w))"
    and "0 < r"
    and "r * 10 < overflow_threshold"
  shows "initial_zoom (w, e, s, n) = Inr (max 1 \<lfloor>fl (10 - fl (log 2 (fl (r * 10))))\<rfloor>)
     \<and> (\<exists>entries.
          update_map_config cfgs d tr =
            (Inr (),
             tr @ [Write (path_join (path_join (path_join d ''web'') ''js'') ''map.js'')
                     (config_head (format_float (fst (center (w, e, s, n))))
                        (format_float (snd (center (w, e, s, n))))
                        (max 1 \<lfloor>fl (10 - fl (log 2 (fl (r * 10))))\<rfloor>)
                        (overall_min_zoom cfgs) (overall_max_zoom cfgs) @ entries @ config_tail),
                   Print Updated_map_configuration,
                   Print (Center (format_float (fst (center (w, e, s, n))))
                            (format_float (snd (center (w, e, s, n))))),
                   Print (Initial_zoom (max 1 \<lfloor>fl (10 - fl (log 2 (fl (r * 10))))\<rfloor>)),
                   Print (Zoom_range (overall_min_zoom cfgs) (overall_max_zoom cfgs))]))"
proof -
  have z: "initial_zoom (w, e, s, n) = Inr (max 1 \<lfloor>fl (10 - fl (log 2 (fl (r * 10))))\<rfloor>)"
    using assms(3,4,5) by (rule initial_zoom_formula)
  from update_map_config_writes[OF assms(1,2) z, of d tr] z show ?thesis
    by blast
qed

theorem initial_zoom_is_floor_witness:
  "all_bounds three_layers \<noteq> []
   \<and> overall_bounds (all_bounds three_layers) = Inr (- 2, 3, - 1, 3)
   \<and> (5::real) = max (fl (3 - (- 1))) (fl (3 - (- 2)))
   \<and> (0::real) < 5
   \<and> (5::real) * 10 < overflow_threshold
   \<and> initial_zoom (- 2, 3, - 1, 3) = Inr 4
   \<and> Print (Initial_zoom 4) \<in> set (snd (update_map_config three_layers ''/p'' []))
   \<and> all_bounds wide_layer \<noteq> []
   \<and> overall_bounds (all_bounds wide_layer) = Inr (- 150, 150, - 40, 50)
   \<and> (300::real) = max (fl (50 - (- 40))) (fl (150 - (- 150)))
   \<and> (0::real) < 300
   \<and> (300::real) * 10 < overflow_threshold
   \<and> py_int (fl (10 - fl (log 2 (fl (300 * 10))))) = - 1
   \<and> \<lfloor>fl (10 - fl (log 2 (fl (300 * 10))))\<rfloor> = - 2
   \<and> initial_zoom (- 150, 150, - 40, 50) = Inr 1
   \<and> Print (Initial_zoom 1) \<in> set (snd (update_map_config wide_layer ''/p'' []))"
proof -
  have a1: "all_bounds three_layers \<noteq> []"
    by (simp add: three_layers_def all_bounds_Cons)
  have a2: "overall_bounds (all_bounds three_layers) = Inr (- 2, 3, - 1, 3)"
    by (simp add: three_layers_def all_bounds_Cons overall_bounds_def numeric_bounds_def
          try_bind_def)
  have a3: "(5::real) = max (fl (3 - (- 1))) (fl (3 - (- 2)))"
    using fl_of_int[of 4] fl_of_int[of 5] by simp
  have a4: "(0::real) < 5"
    by simp
  have a5: "(5::real) * 10 < overflow_threshold"
    by (simp add: overflow_threshold_def)
  note a = initial_zoom_is_floor [OF a1 a2 a3 a4 a5, of "''/p''" "[]"]
  have a6: "initial_zoom (- 2, 3, - 1, 3) = Inr 4"
    using a by (simp only: initial_zoom_three_layers) simp
  have a7: "Print (Initial_zoom 4) \<in> set (snd (update_map_config three_layers ''/p'' []))"
    using a by (simp only: initial_zoom_three_layers) auto
  have b1: "all_bounds wide_layer \<noteq> []"
    by (simp add: wide_layer_def all_bounds_Cons)
  have b2: "overall_bounds (all_bounds wide_layer) = Inr (- 150, 150, - 40, 50)"
    by (simp add: wide_layer_def all_bounds_Cons overall_bounds_def numeric_bounds_def
          try_bind_def)
  have b3: "(300::real) = max (fl (50 - (- 40))) (fl (150 - (- 150)))"
    using fl_of_int[of 90] fl_of_int[of 300] by simp
  have b4: "(0::real) < 300"
    by simp
  have b5: "(300::real) * 10 < overflow_threshold"
    by (simp add: overflow_threshold_def)
  note b = initial_zoom_is_floor [OF b1 b2 b3 b4 b5, of "''/p''" "[]"]
  have b6: "initial_zoom (- 150, 150, - 40, 50) = Inr 1"
    using b by (simp only: initial_zoom_wide_layer(1)) simp
  have b7: "Print (Initial_zoom 1) \<in> set (snd (update_map_config wide_layer ''/p'' []))"
    using b by (simp only: initial_zoom_wide_layer(1)) auto
  show ?thesis
    using a1 a2 a3 a4 a5 a6 a7 b1 b2 b3 b4 b5 b6 b7 initial_zoom_wide_layer by blast
qed

text \<open>
  Claim C7: for the three layers with bounds (w=-1, s=0, e=1, n=2), (w=2, s=1, e=3, n=3) and
  (w=-2, s=-1, e=0, n=1) the overall bounds are west -2, east 3, south -1, north 3, the
  center is latitude 1 and longitude 0.5, and \<^verbatim>\<open>update_map_config\<close> reports the center
  as \<^verbatim>\<open>1.000000, 0.500000\<close>.
\<close>

theorem three_layers_bounds_and_center:
  "overall_bounds (all_bounds three_layers) = Inr (- 2, 3, - 1, 3)
   \<and> center (- 2, 3, - 1, 3) = (Finite 1, Finite (1 / 2))
   \<and> fst (update_map_config three_layers d tr) = Inr ()
   \<and> Print (Center ''1.000000'' ''0.500000'') \<in> set (snd (update_map_config three_layers d tr))"
proof -
  have ne: "all_bounds three_layers \<noteq> []"
    by (simp add: three_layers_def all_bounds_Cons)
  have ob: "overall_bounds (all_bounds three_layers) = Inr (- 2, 3, - 1, 3)"
    by (simp add: three_layers_def all_bounds_Cons overall_bounds_def numeric_bounds_def
          try_bind_def)
  have f: "fl 2 = 2" "fl (1 / 2) = 1 / 2"
    using fl_of_int[of 2] fl_inverse_power2[of 1] by simp_all
  have t: "\<bar>2::real\<bar> < overflow_threshold" "\<bar>1::real\<bar> < overflow_threshold"
    "\<bar>1 / 2::real\<bar> < overflow_threshold"
    using overflow_threshold_gt by simp_all
  have c: "center (- 2, 3, - 1, 3) = (Finite 1, Finite (1 / 2))"
    using t by (simp add: center_def round_float_finite f)
  have r: "(5::real) = max (fl (3 - (- 1))) (fl (3 - (- 2)))"
    using fl_of_int[of 4] fl_of_int[of 5] by simp
  have "(5::real) * 10 < overflow_threshold"
    by (simp add: overflow_threshold_def)
  then have "\<exists>z. initial_zoom (- 2, 3, - 1, 3) = Inr z"
    using initial_zoom_formula[OF r] by simp
  then obtain z where "initial_zoom (- 2, 3, - 1, 3) = Inr z" ..
  from update_map_config_writes[OF ne ob this, of d tr] ob c
  show ?thesis
    by (auto simp: format_6f_1 format_6f_half)
qed

text \<open>
  Claim C8: \<^verbatim>\<open>update_map_config\<close> on the same layer results returns the same result and
  appends the same events, among them the write of the same text, whatever happened
  before; and running it a second time leaves the content of every file as the first run
  left it.
\<close>

theorem update_map_config_deterministic:
  "fst (update_map_config cfgs d tr1) = fst (update_map_config cfgs d tr2)
   \<and> drop (length tr1) (snd (update_map_config cfgs d tr1))
       = drop (length tr2) (snd (update_map_config cfgs d tr2))
   \<and> written p (snd (update_map_config cfgs d (snd (update_map_config cfgs d tr1))))
       = written p (snd (update_map_config cfgs d tr1))"
proof -
  obtain r es where e: "update_map_config cfgs d [] = (r, es)"
    by (cases "update_map_config cfgs d []")
  have f: "update_map_config cfgs d tr = (r, tr @ es)" for tr
    using update_map_config_frame[of cfgs d tr] e by simp
  show ?thesis
    by (simp add: f written_append split: option.splits)
qed

subsection \<open>The loop over the files\<close>

lemma extraction_fails_result:
  "extraction_fails env p \<Longrightarrow> fst (generate_tiles env p od n tr) = Inr (None, None, None)"
  by (auto simp: extraction_fails_def generate_tiles_def get_geotiff_info_def Let_def
           split: sum.splits option.splits)

lemma process_files_Cons_result:
  "fst (process_files env gd td (f # fs) c tr) =
     (case fst (generate_tiles env (path_join gd f) td (stem f) []) of
        Inl e \<Rightarrow> Inl e
      | Inr (b, mn, mx) \<Rightarrow>
          fst (process_files env gd td fs
                 (AList.update (stem f)
                    \<lparr>bounds = b, min_zoom = mn, max_zoom = mx, source_file = f\<rparr> c) []))"
proof -
  obtain r t where g: "generate_tiles env (path_join gd f) td (stem f) tr = (r, t)"
    by (cases "generate_tiles env (path_join gd f) td (stem f) tr")
  then have r: "fst (generate_tiles env (path_join gd f) td (stem f) []) = r"
    using generate_tiles_result[of env "path_join gd f" td "stem f" tr] by simp
  show ?thesis
    using g process_files_result[of env gd td fs _ t]
    by (simp add: r split: sum.splits prod.splits)
qed

lemma process_files_append_result:
  "fst (process_files env gd td (xs @ ys) c tr) =
     (case fst (process_files env gd td xs c []) of
        Inl e \<Rightarrow> Inl e
      | Inr c' \<Rightarrow> fst (process_files env gd td ys c' []))"
proof -
  obtain r t where g: "process_files env gd td xs c tr = (r, t)"
    by (cases "process_files env gd td xs c tr")
  then have r: "fst (process_files env gd td xs c []) = r"
    using process_files_result[of env gd td xs c tr] by simp
  show ?thesis
    using g process_files_result[of env gd td ys _ t]
    by (simp add: process_files_append r split: sum.splits)
qed

lemma process_files_keys:
  "fst (process_files env gd td fs c []) = Inr c' \<Longrightarrow>
     fst ` set c' = fst ` set c \<union> stem ` set fs"
proof (induction fs arbitrary: c)
  case Nil
  then show ?case by simp
next
  case (Cons f fs)
  then show ?case
    by (auto simp: process_files_Cons_result dom_update simp del: process_files.simps
             split: sum.splits prod.splits)
qed

lemma process_files_distinct:
  "fst (process_files env gd td fs c []) = Inr c' \<Longrightarrow> distinct (map fst c) \<Longrightarrow>
     distinct (map fst c')"
proof (induction fs arbitrary: c)
  case Nil
  then show ?case by simp
next
  case (Cons f fs)
  then show ?case
    by (auto simp: process_files_Cons_result distinct_update simp del: process_files.simps
             split: sum.splits prod.splits)
qed

lemma process_files_untouched:
  "fst (process_files env gd td fs c []) = Inr c' \<Longrightarrow> k \<notin> stem ` set fs \<Longrightarrow>
     map_of c' k = map_of c k"
proof (induction fs arbitrary: c)
  case Nil
  then show ?case by simp
next
  case (Cons f fs)
  then show ?case
    by (auto simp: process_files_Cons_result update_conv' simp del: process_files.simps
             split: sum.splits prod.splits)
qed

lemma process_files_delete:
  "fst (process_files env gd td fs (AList.delete k c1) []) = Inr c \<Longrightarrow> k \<notin> stem ` set fs \<Longrightarrow>
     \<exists>c'. fst (process_files env gd td fs c1 []) = Inr c' \<and> AList.delete k c' = c"
proof (induction fs arbitrary: c1)
  case Nil
  then show ?case by simp
next
  case (Cons f fs)
  from Cons.prems(2) have ne: "stem f \<noteq> k" and rest: "k \<notin> stem ` set fs"
    by auto
  from Cons.prems(1) obtain b mn mx where
    g: "fst (generate_tiles env (path_join gd f) td (stem f) []) = Inr (b, mn, mx)"
    and r: "fst (process_files env gd td fs
                  (AList.update (stem f)
                     \<lparr>bounds = b, min_zoom = mn, max_zoom = mx, source_file = f\<rparr>
                     (AList.delete k c1)) []) = Inr c"
    by (auto simp: process_files_Cons_result simp del: process_files.simps
             split: sum.splits prod.splits)
  from r have "fst (process_files env gd td fs
                  (AList.delete k (AList.update (stem f)
                     \<lparr>bounds = b, min_zoom = mn, max_zoom = mx, source_file = f\<rparr> c1)) []) = Inr c"
    using ne by (simp add: delete_update)
  from Cons.IH[OF this rest] show ?case
    by (simp add: process_files_Cons_result g del: process_files.simps)
qed

lemma delete_absent: "k \<notin> fst ` set c \<Longrightarrow> AList.delete k c = c"
  by (induction c) (auto simp: AList.delete_eq)


lemma map_filter_delete:
  "distinct (map fst c) \<Longrightarrow> map_of c k = Some v \<Longrightarrow> g v = None \<Longrightarrow>
     List.map_filter (\<lambda>(n, x). g x) (AList.delete k c) = List.map_filter (\<lambda>(n, x). g x) c"
proof (induction c)
  case Nil
  then show ?case by simp
next
  case (Cons a c)
  obtain n w where a: "a = (n, w)" by (cases a)
  show ?case
  proof (cases "n = k")
    case True
    with Cons.prems a have "k \<notin> fst ` set c" "w = v" by auto
    with True a Cons.prems(3) show ?thesis
      by (simp add: List.map_filter_simps delete_absent)
  next
    case False
    with Cons.prems a have "distinct (map fst c)" "map_of c k = Some v" by auto
    from Cons.IH[OF this Cons.prems(3)] False a show ?thesis
      by (simp add: List.map_filter_simps split: option.splits)
  qed
qed

lemma failed_layer_excluded:
  assumes "distinct (map fst c)" and "map_of c k = Some (failed_layer f)"
  shows "all_bounds (AList.delete k c) = all_bounds c"
    and "all_min_zooms (AList.delete k c) = all_min_zooms c"
    and "all_max_zooms (AList.delete k c) = all_max_zooms c"
  unfolding all_bounds_def all_min_zooms_def all_max_zooms_def
  by (rule map_filter_delete[OF assms]; simp add: failed_layer_def truthy_zoom_def)+

lemma generate_tiles_sample:
  assumes "run env [''gdalinfo'', ''-json'', p] = Inr out"
    and "json_loads env out = Some (sample_info w s e n)"
    and "run env [''gdal2tiles.py'', ''-z'', ''12-22'', ''-w'', ''none'', ''--processes=4'',
                  p, path_join od name] = Inr x"
  shows "fst (generate_tiles env p od name tr)
           = Inr (Some \<lparr>west = JNum w, south = JNum s, east = JNum e, north = JNum n\<rparr>,
                  Some 12, Some 22)"
  using assms
  by (simp add: generate_tiles_def get_geotiff_info_def read_info_sample Let_def try_bind_def
        calculate_zoom_levels_sample str_int_12_22)

text \<open>
  Claim C3, as stated (a layer whose metadata extraction fails is in the final result set
  with absent bounds and zoom), fails when another file has the same stem: the
  results are keyed by the stem, and the entry of \<^verbatim>\<open>a.tif\<close>, on which \<^verbatim>\<open>gdalinfo\<close> fails, is
  replaced by that of \<^verbatim>\<open>a.tiff\<close>. The only layer of the final result set has bounds.
\<close>

theorem failed_extraction_collision_counterexample:
  "extraction_fails collision_env ''/p/orthos/a.tif''
   \<and> geotiff_files collision_env ''/p/orthos'' = [''a.tif'', ''a.tiff'']
   \<and> fst (process_files collision_env ''/p/orthos'' ''/p/tiles''
             (geotiff_files collision_env ''/p/orthos'') [] [])
       = Inr [(''a'', \<lparr>bounds = Some \<lparr>west = JNum 0, south = JNum 0, east = JNum 1, north = JNum 1\<rparr>,
                      min_zoom = Some 12, max_zoom = Some 22, source_file = ''a.tiff''\<rparr>)]"
proof -
  have f: "geotiff_files collision_env ''/p/orthos'' = [''a.tif'', ''a.tiff'']"
    by (simp add: geotiff_files_def glob_def collision_env_def scripted_env_def sample_globs)
  have a: "extraction_fails collision_env ''/p/orthos/a.tif''"
    by (simp add: extraction_fails_def collision_env_def scripted_env_def)
  have b: "fst (generate_tiles collision_env ''/p/orthos/a.tiff'' ''/p/tiles'' ''a'' [])
          = Inr (Some \<lparr>west = JNum 0, south = JNum 0, east = JNum 1, north = JNum 1\<rparr>, Some 12, Some 22)"
    by (rule generate_tiles_sample[where out = "''A''"])
       (simp_all add: collision_env_def scripted_env_def sample_paths)
  show ?thesis
    using a b extraction_fails_result[OF a, of "''/p/tiles''" "''a''" "[]"]
    by (simp add: f process_files_Cons_result sample_stems sample_paths del: process_files.simps(2))
qed

text \<open>
  Claim C3, amended: a file on which metadata extraction fails (\<^verbatim>\<open>gdalinfo\<close> exits with a
  status other than 0, or its output is not JSON) and whose stem no other input file has
  does not stop the loop: whenever the loop over the other files completes, so does the
  loop over all of them; the file is in the final result set with absent bounds and zoom
  range; the entries of the other layers are what they are without it; and the bounds and
  zoom levels that enter the overall bounds and the overall zoom range are the same as
  without it.
\<close>

theorem failed_extraction_is_recorded:
  assumes fail: "extraction_fails env (path_join gd f)"
    and uniq: "stem f \<notin> stem ` set (xs @ ys)"
    and rest: "fst (process_files env gd td (xs @ ys) [] tr) = Inr cfgs"
  shows "\<exists>cfgs'. fst (process_files env gd td (xs @ f # ys) [] tr') = Inr cfgs'
           \<and> map_of cfgs' (stem f) = Some (failed_layer f)
           \<and> AList.delete (stem f) cfgs' = cfgs
           \<and> all_bounds cfgs' = all_bounds cfgs
           \<and> all_min_zooms cfgs' = all_min_zooms cfgs
           \<and> all_max_zooms cfgs' = all_max_zooms cfgs"
proof -
  let ?k = "stem f"
  from rest obtain cx where
    xs: "fst (process_files env gd td xs [] []) = Inr cx"
    and ys: "fst (process_files env gd td ys cx []) = Inr cfgs"
    by (subst (asm) process_files_append_result) (auto split: sum.splits)
  have "fst ` set cx = stem ` set xs"
    using process_files_keys[OF xs] by simp
  with uniq have fresh: "?k \<notin> fst ` set cx"
    by auto
  let ?c1 = "AList.update ?k (failed_layer f) cx"
  have "AList.delete ?k ?c1 = cx"
    using fresh by (simp add: delete_update_same delete_absent)
  with ys have "fst (process_files env gd td ys (AList.delete ?k ?c1) []) = Inr cfgs"
    by simp
  moreover from uniq have nys: "?k \<notin> stem ` set ys"
    by auto
  ultimately obtain c' where
    c': "fst (process_files env gd td ys ?c1 []) = Inr c'" and del: "AList.delete ?k c' = cfgs"
    using process_files_delete by blast
  have run: "fst (process_files env gd td (xs @ f # ys) [] tr') = Inr c'"
    using xs c' extraction_fails_result[OF fail, of td ?k "[]"]
    by (subst process_files_append_result)
       (simp add: process_files_Cons_result failed_layer_def del: process_files.simps)
  have look: "map_of c' ?k = Some (failed_layer f)"
    using process_files_untouched[OF c' nys] by (simp add: update_conv')
  have "distinct (map fst cx)"
    using process_files_distinct[OF xs] by simp
  then have "distinct (map fst ?c1)"
    by (simp add: distinct_update)
  then have dist: "distinct (map fst c')"
    using process_files_distinct[OF c'] by simp
  show ?thesis
    using run look del failed_layer_excluded[OF dist look] by auto
qed

theorem failed_extraction_is_recorded_witness:
  "extraction_fails one_failing_env (path_join ''/p/orthos'' ''a.tif'')
   \<and> stem ''a.tif'' \<notin> stem ` set ([] @ [''b.tif''])
   \<and> fst (process_files one_failing_env ''/p/orthos'' ''/p/tiles'' ([] @ [''b.tif'']) [] [])
       = Inr [(''b'', \<lparr>bounds = Some \<lparr>west = JNum 0, south = JNum 0, east = JNum 1, north = JNum 1\<rparr>,
                      min_zoom = Some 12, max_zoom = Some 22, source_file = ''b.tif''\<rparr>)]
   \<and> (\<exists>cfgs'. fst (process_files one_failing_env ''/p/orthos'' ''/p/tiles''
                      ([] @ ''a.tif'' # [''b.tif'']) [] []) = Inr cfgs'
         \<and> map_of cfgs' (stem ''a.tif'') = Some (failed_layer ''a.tif'')
         \<and> AList.delete (stem ''a.tif'') cfgs'
             = [(''b'', \<lparr>bounds = Some \<lparr>west = JNum 0, south = JNum 0, east = JNum 1, north = JNum 1\<rparr>,
                      min_zoom = Some 12, max_zoom = Some 22, source_file = ''b.tif''\<rparr>)])"
proof -
  let ?b = "[(''b'', \<lparr>bounds = Some \<lparr>west = JNum 0, south = JNum 0, east = JNum 1, north = JNum 1\<rparr>,
                      min_zoom = Some 12, max_zoom = Some 22, source_file = ''b.tif''\<rparr>)]"
  have h1: "extraction_fails one_failing_env (path_join ''/p/orthos'' ''a.tif'')"
    by (simp add: extraction_fails_def one_failing_env_def scripted_env_def sample_paths)
  have h2: "stem ''a.tif'' \<notin> stem ` set ([] @ [''b.tif''])"
    by (simp add: sample_stems)
  have "fst (generate_tiles one_failing_env ''/p/orthos/b.tif'' ''/p/tiles'' ''b'' [])
          = Inr (Some \<lparr>west = JNum 0, south = JNum 0, east = JNum 1, north = JNum 1\<rparr>, Some 12, Some 22)"
    by (rule generate_tiles_sample[where out = "''B''"])
       (simp_all add: one_failing_env_def scripted_env_def sample_paths)
  then have h3: "fst (process_files one_failing_env ''/p/orthos'' ''/p/tiles'' ([] @ [''b.tif'']) [] [])
                   = Inr ?b"
    by (simp add: process_files_Cons_result sample_stems sample_paths del: process_files.simps(2))
  from failed_extraction_is_recorded [OF h1 h2 h3, of "[]"] h1 h2 h3 show ?thesis
    by blast
qed

text \<open>
  Claim C9: when \<^verbatim>\<open>gdalinfo\<close> succeeds on a file and \<^verbatim>\<open>gdal2tiles.py\<close> exits with a status
  other than 0, \<^verbatim>\<open>generate_tiles\<close> returns three \<^verbatim>\<open>None\<close>: the bounds that were read are
  dropped. The loop records the layer without bounds and zoom, the layer contributes
  nothing to the bounds that \<^verbatim>\<open>update_map_config\<close> aggregates, and its entry in the
  generated text is the one with \<^verbatim>\<open>bounds: null\<close>.
\<close>

theorem tiling_failure_discards_bounds:
  assumes info: "fst (get_geotiff_info env (path_join gd f) []) = Inr (Some (b, sz, px))"
    and zoom: "try_bind (getitem_index sz 0) (calculate_zoom_levels px) = Inr (mn, mx)"
    and tiles: "run env [''gdal2tiles.py'', ''-z'', str_int mn @ ''-'' @ str_int mx, ''-w'', ''none'',
                         ''--processes=4'', path_join gd f, path_join td (stem f)]
                  = Inl CalledProcessError"
    and dict: "distinct (map fst cfgs)"
  shows "fst (generate_tiles env (path_join gd f) td (stem f) tr) = Inr (None, None, None)
     \<and> fst (process_files env gd td [f] cfgs tr)
           = Inr (AList.update (stem f) (failed_layer f) cfgs)
     \<and> all_bounds (AList.update (stem f) (failed_layer f) cfgs)
           = all_bounds (AList.delete (stem f) cfgs)
     \<and> layer_entry (stem f) (failed_layer f) = Inr (unlines
          [''        {'',
           ''            name: '' @ [CHR 0x27] @ stem f @ [CHR 0x27] @ '','',
           ''            url: '' @ [CHR 0x27] @ ''../tiles/'' @ stem f
              @ ''/{z}/{x}/{y}.png'' @ [CHR 0x27] @ '','',
           ''            bounds: null'',
           ''        },''])"
proof -
  obtain t where g: "get_geotiff_info env (path_join gd f) X = (Inr (Some (b, sz, px)), X @ t)" for X
    using info get_geotiff_info_frame[of env "path_join gd f"] by (metis prod.collapse)
  have r: "fst (generate_tiles env (path_join gd f) td (stem f) tr) = Inr (None, None, None)" for tr
    using zoom tiles by (simp add: generate_tiles_def g Let_def)
  let ?c = "AList.update (stem f) (failed_layer f) cfgs"
  have "distinct (map fst ?c)" "map_of ?c (stem f) = Some (failed_layer f)"
    using dict by (simp_all add: distinct_update update_conv')
  from failed_layer_excluded(1)[OF this]
  have "all_bounds ?c = all_bounds (AList.delete (stem f) cfgs)"
    by (simp add: delete_update_same)
  moreover have "fst (process_files env gd td [f] cfgs tr) = Inr ?c"
    using r[of "[]"]
    by (simp add: process_files_Cons_result failed_layer_def del: process_files.simps(2))
  ultimately show ?thesis
    using r by (simp add: layer_entry_def failed_layer_def)
qed

theorem tiling_failure_discards_bounds_witness:
  "fst (get_geotiff_info tiles_fail_env (path_join ''/p/orthos'' ''a.tif'') [])
     = Inr (Some (\<lparr>west = JNum 0, south = JNum 0, east = JNum 1, north = JNum 1\<rparr>,
                  JArr [JNum 1024, JNum 1024], JNum sample_pixel_size))
   \<and> try_bind (getitem_index (JArr [JNum 1024, JNum 1024]) 0)
        (calculate_zoom_levels (JNum sample_pixel_size)) = Inr (12, 22)
   \<and> run tiles_fail_env [''gdal2tiles.py'', ''-z'', str_int 12 @ ''-'' @ str_int 22, ''-w'', ''none'',
         ''--processes=4'', path_join ''/p/orthos'' ''a.tif'', path_join ''/p/tiles'' (stem ''a.tif'')]
       = Inl CalledProcessError
   \<and> distinct (map fst ([] :: ortho_configs))
   \<and> fst (generate_tiles tiles_fail_env (path_join ''/p/orthos'' ''a.tif'') ''/p/tiles''
            (stem ''a.tif'') []) = Inr (None, None, None)
   \<and> fst (process_files tiles_fail_env ''/p/orthos'' ''/p/tiles'' [''a.tif''] [] [])
       = Inr (AList.update (stem ''a.tif'') (failed_layer ''a.tif'') [])
   \<and> all_bounds (AList.update (stem ''a.tif'') (failed_layer ''a.tif'') []) = []"
proof -
  have h1: "fst (get_geotiff_info tiles_fail_env (path_join ''/p/orthos'' ''a.tif'') [])
     = Inr (Some (\<lparr>west = JNum 0, south = JNum 0, east = JNum 1, north = JNum 1\<rparr>,
                  JArr [JNum 1024, JNum 1024], JNum sample_pixel_size))"
    by (simp add: get_geotiff_info_def tiles_fail_env_def scripted_env_def read_info_sample
          Let_def sample_paths)
  have h2: "try_bind (getitem_index (JArr [JNum 1024, JNum 1024]) 0)
        (calculate_zoom_levels (JNum sample_pixel_size)) = Inr (12, 22)"
    by (simp add: try_bind_def calculate_zoom_levels_sample)
  have h3: "run tiles_fail_env [''gdal2tiles.py'', ''-z'', str_int 12 @ ''-'' @ str_int 22, ''-w'',
         ''none'', ''--processes=4'', path_join ''/p/orthos'' ''a.tif'',
         path_join ''/p/tiles'' (stem ''a.tif'')] = Inl CalledProcessError"
    by (simp add: tiles_fail_env_def scripted_env_def str_int_12_22 sample_paths sample_stems)
  have h4: "distinct (map fst ([] :: ortho_configs))"
    by simp
  from tiling_failure_discards_bounds [OF h1 h2 h3 h4, of "[]"] h1 h2 h3 h4 show ?thesis
    by (simp add: delete_absent)
qed






subsection \<open>The entry point\<close>

text \<open>
  The ways out of \<^verbatim>\<open>main\<close>: \<^verbatim>\<open>sys.exit(1)\<close> after the diagnostic when one of the two
  programs exits with a status other than 0, the bare \<^verbatim>\<open>FileNotFoundError\<close> when a program
  is not installed, \<^verbatim>\<open>sys.exit(1)\<close> when no file matches, and the normal return when the
  loop and \<^verbatim>\<open>update_map_config\<close> raise nothing.
\<close>

lemma check_gdal_exits:
  assumes "run env [''gdalinfo'', ''--version''] = Inl CalledProcessError"
  shows "check_gdal env tr =
     (Inl (SystemExit 1),
      tr @ [Run [''gdalinfo'', ''--version''], Print GDAL_tools_not_found,
            Print Install_hint_ubuntu, Print Install_hint_macos, Print Install_hint_windows])"
  using assms by (simp add: check_gdal_def)

lemma check_gdal_program_missing:
  assumes "run env [''gdalinfo'', ''--version''] = Inl FileNotFoundError"
  shows "check_gdal env tr = (Inl FileNotFoundError, tr @ [Run [''gdalinfo'', ''--version'']])"
  using assms by (simp add: check_gdal_def)

lemma main_stops_at_check:
  assumes "fst (check_gdal env []) = Inl e"
  shows "main env pd tr = (Inl e, tr @ [Print Banner, Print Rule] @ snd (check_gdal env []))"
proof -
  obtain t where "check_gdal env X = (Inl e, X @ t)" "snd (check_gdal env []) = t" for X
    using assms check_gdal_frame[of env] by (metis prod.collapse snd_conv)
  then show ?thesis
    by (simp add: main_def Let_def)
qed

lemma main_no_files:
  assumes "fst (check_gdal env []) = Inr ()"
    and "geotiff_files env (path_join pd ''orthos'') = []"
  shows "fst (main env pd tr) = Inl (SystemExit 1)"
    and "\<forall>cmd. Run cmd \<in> set (snd (main env pd tr)) \<longrightarrow>
           Run cmd \<in> set tr \<or> cmd \<in> {[''gdalinfo'', ''--version''], [''gdal2tiles.py'', ''--help'']}"
proof -
  obtain t where c: "check_gdal env X = (Inr (), X @ t)" and t: "snd (check_gdal env []) = t" for X
    using assms(1) check_gdal_frame[of env] by (metis prod.collapse snd_conv)
  show "fst (main env pd tr) = Inl (SystemExit 1)"
    using assms(2) by (simp add: main_def Let_def c)
  have "set t \<subseteq> {Run [''gdalinfo'', ''--version''], Run [''gdal2tiles.py'', ''--help'']}"
    using t[symmetric] assms(1) by (auto simp: check_gdal_def Let_def split: sum.splits if_splits)
  then show "\<forall>cmd. Run cmd \<in> set (snd (main env pd tr)) \<longrightarrow>
           Run cmd \<in> set tr \<or> cmd \<in> {[''gdalinfo'', ''--version''], [''gdal2tiles.py'', ''--help'']}"
    using assms(2) by (auto simp: main_def Let_def c)
qed

lemma main_completes:
  assumes "fst (check_gdal env []) = Inr ()"
    and "geotiff_files env (path_join pd ''orthos'') \<noteq> []"
    and "fst (process_files env (path_join pd ''orthos'') (path_join pd ''tiles'')
                (geotiff_files env (path_join pd ''orthos'')) [] []) = Inr cfgs"
    and "fst (update_map_config cfgs pd []) = Inr ()"
  shows "fst (main env pd tr) = Inr ()" and "exit_code (fst (main env pd tr)) = 0"
proof -
  let ?gd = "path_join pd ''orthos''" and ?td = "path_join pd ''tiles''"
  obtain t1 where c: "check_gdal env X = (Inr (), X @ t1)" for X
    using assms(1) check_gdal_frame[of env] by (metis prod.collapse)
  obtain t2 where p: "process_files env ?gd ?td (geotiff_files env ?gd) [] X = (Inr cfgs, X @ t2)" for X
    using assms(3) process_files_frame[of env ?gd ?td "geotiff_files env ?gd" "[]"]
    by (metis prod.collapse)
  obtain t3 where u: "update_map_config cfgs pd X = (Inr (), X @ t3)" for X
    using assms(4) update_map_config_frame[of cfgs pd] by (metis prod.collapse)
  show "fst (main env pd tr) = Inr ()"
    using assms(2) by (simp add: main_def Let_def c p u)
  then show "exit_code (fst (main env pd tr)) = 0"
    by simp
qed

text \<open>
  Claim C4: when no layer has bounds, \<^verbatim>\<open>update_map_config\<close> prints that no valid bounds
  were found and returns, with nothing written; and a run of \<^verbatim>\<open>main\<close> whose loop ends with
  such results returns normally, with exit status 0, having printed the diagnostic and
  written no file at all.
\<close>

theorem no_bounds_no_artifact:
  assumes "all_bounds cfgs = []"
  shows "update_map_config cfgs d tr = (Inr (), tr @ [Print No_valid_ortho_bounds_found])
     \<and> (fst (check_gdal env []) = Inr ()
          \<and> geotiff_files env (path_join pd ''orthos'') \<noteq> []
          \<and> fst (process_files env (path_join pd ''orthos'') (path_join pd ''tiles'')
                   (geotiff_files env (path_join pd ''orthos'')) [] []) = Inr cfgs
        \<longrightarrow> fst (main env pd []) = Inr ()
            \<and> exit_code (fst (main env pd [])) = 0
            \<and> Print No_valid_ortho_bounds_found \<in> set (snd (main env pd []))
            \<and> (\<forall>p c. Write p c \<notin> set (snd (main env pd []))))"
proof (intro conjI impI)
  show u: "update_map_config cfgs d tr = (Inr (), tr @ [Print No_valid_ortho_bounds_found])" for d tr
    using assms by (simp add: update_map_config_def)
  let ?gd = "path_join pd ''orthos''" and ?td = "path_join pd ''tiles''"
  let ?files = "geotiff_files env ?gd"
  assume run: "fst (check_gdal env []) = Inr () \<and> ?files \<noteq> []
          \<and> fst (process_files env ?gd ?td ?files [] []) = Inr cfgs"
  obtain t1 where c: "check_gdal env X = (Inr (), X @ t1)" and t1: "\<forall>p c. Write p c \<notin> set t1" for X
    using run check_gdal_frame[of env] check_gdal_no_write[of _ _ env]
    by (metis prod.collapse)
  obtain t2 where p: "process_files env ?gd ?td ?files [] X = (Inr cfgs, X @ t2)"
    and t2: "\<forall>p c. Write p c \<notin> set t2" for X
    using run process_files_frame[of env ?gd ?td ?files "[]"]
      process_files_no_write[of _ _ env ?gd ?td ?files "[]"]
    by (metis prod.collapse)
  have m: "main env pd [] =
     (Inr (), [Print Banner, Print Rule] @ t1 @ Print (Found_files (length ?files))
         # map (\<lambda>(i, f). Print (File_item i f)) (zip [1 ..< Suc (length ?files)] ?files) @ t2
         @ [Print Updating_map_configuration, Print No_valid_ortho_bounds_found,
            Print Tile_generation_complete, Print (Generated_tiles_in ?td),
            Print Updated_map_configuration_done, Print To_view_your_map, Print Upload_step,
            Print Hosting_step, Print Index_step])"
    using run by (simp add: main_def Let_def c p u)
  show "fst (main env pd []) = Inr ()" "exit_code (fst (main env pd [])) = 0"
    "Print No_valid_ortho_bounds_found \<in> set (snd (main env pd []))"
    by (simp_all add: m)
  show "\<forall>p c. Write p c \<notin> set (snd (main env pd []))"
    using t1 t2 by (auto simp: m)
qed

theorem no_bounds_no_artifact_witness:
  "all_bounds [(''a'', failed_layer ''a.tif'')] = []
   \<and> fst (check_gdal all_failing_env []) = Inr ()
   \<and> geotiff_files all_failing_env (path_join ''/p'' ''orthos'') \<noteq> []
   \<and> fst (process_files all_failing_env (path_join ''/p'' ''orthos'') (path_join ''/p'' ''tiles'')
            (geotiff_files all_failing_env (path_join ''/p'' ''orthos'')) [] [])
       = Inr [(''a'', failed_layer ''a.tif'')]
   \<and> update_map_config [(''a'', failed_layer ''a.tif'')] ''/p'' []
       = (Inr (), [] @ [Print No_valid_ortho_bounds_found])
   \<and> fst (main all_failing_env ''/p'' []) = Inr ()
   \<and> exit_code (fst (main all_failing_env ''/p'' [])) = 0
   \<and> Print No_valid_ortho_bounds_found \<in> set (snd (main all_failing_env ''/p'' []))
   \<and> (\<forall>p c. Write p c \<notin> set (snd (main all_failing_env ''/p'' [])))"
proof -
  have h: "all_bounds [(''a'', failed_layer ''a.tif'')] = []"
    by (simp add: all_bounds_Cons failed_layer_def)
  have f: "geotiff_files all_failing_env ''/p/orthos'' = [''a.tif'']"
    by (simp add: geotiff_files_def glob_def all_failing_env_def scripted_env_def sample_globs)
  have c: "fst (check_gdal all_failing_env []) = Inr ()"
    by (simp add: check_gdal_def all_failing_env_def scripted_env_def)
  have a: "extraction_fails all_failing_env ''/p/orthos/a.tif''"
    by (simp add: extraction_fails_def all_failing_env_def scripted_env_def)
  have p: "fst (process_files all_failing_env ''/p/orthos'' ''/p/tiles'' [''a.tif''] [] [])
             = Inr [(''a'', failed_layer ''a.tif'')]"
    using extraction_fails_result[OF a, of "''/p/tiles''" "''a''" "[]"]
    by (simp add: process_files_Cons_result sample_stems sample_paths failed_layer_def
          del: process_files.simps(2))
  from no_bounds_no_artifact [OF h, of "''/p''" "[]" all_failing_env "''/p''"] h c f p
  show ?thesis
    by (simp add: sample_paths)
qed

text \<open>
  Claim C5 (a status other than 0 only for missing tools or an empty input directory, and
  status 0 once processing has begun) does not hold of the code: \<^verbatim>\<open>get_geotiff_info\<close>
  catches a failed \<^verbatim>\<open>gdalinfo\<close> and output that is not JSON, but not a document that lacks
  an entry. For one raster without georeferencing the pre-flight check passes, the file is
  found, processing begins, and the \<^verbatim>\<open>KeyError\<close> of \<^verbatim>\<open>info['geoTransform']\<close> ends the
  process with status 1.
\<close>

theorem main_aborts_on_missing_key:
  "fst (check_gdal no_geotransform_env []) = Inr ()
   \<and> geotiff_files no_geotransform_env ''/p/orthos'' = [''a.tif'']
   \<and> fst (main no_geotransform_env ''/p'' []) = Inl KeyError
   \<and> exit_code (fst (main no_geotransform_env ''/p'' [])) = 1
   \<and> snd (main no_geotransform_env ''/p'' [])
       = [Print Banner, Print Rule, Run [''gdalinfo'', ''--version''],
          Run [''gdal2tiles.py'', ''--help''], Print (Found_files 1), Print (File_item 1 ''a.tif''),
          Print (Processing ''a''), Run [''gdalinfo'', ''-json'', ''/p/orthos/a.tif'']]"
proof -
  have f: "geotiff_files no_geotransform_env ''/p/orthos'' = [''a.tif'']"
    by (simp add: geotiff_files_def glob_def no_geotransform_env_def scripted_env_def sample_globs)
  have c: "check_gdal no_geotransform_env tr
             = (Inr (), tr @ [Run [''gdalinfo'', ''--version''], Run [''gdal2tiles.py'', ''--help'']])" for tr
    by (simp add: check_gdal_def no_geotransform_env_def scripted_env_def)
  have g: "generate_tiles no_geotransform_env ''/p/orthos/a.tif'' ''/p/tiles'' ''a'' tr
             = (Inl KeyError, tr @ [Print (Processing ''a''),
                                   Run [''gdalinfo'', ''-json'', ''/p/orthos/a.tif'']])" for tr
    by (simp add: generate_tiles_def get_geotiff_info_def no_geotransform_env_def scripted_env_def
          read_info_def try_bind_def Let_def)
  have m: "main no_geotransform_env ''/p'' []
             = (Inl KeyError,
                [Print Banner, Print Rule, Run [''gdalinfo'', ''--version''],
                 Run [''gdal2tiles.py'', ''--help''], Print (Found_files 1),
                 Print (File_item 1 ''a.tif''), Print (Processing ''a''),
                 Run [''gdalinfo'', ''-json'', ''/p/orthos/a.tif'']])"
    by (simp add: main_def Let_def sample_paths f c g sample_stems)
  show ?thesis
    by (simp add: m f c)
qed

end
